theory Spec2Isabelle
  imports Main "HOL-Library.List_Lexorder" "HOL-Library.Char_ord" "HOL-Library.Sublist"
begin

section \<open>Data model (src/types/bluesky.ts)\<close>

text \<open>
  The status of a post is the union type \<open>'scheduled' | 'published' | 'failed'\<close>;
  \<open>MediaFile.type\<close> is \<open>'image' | 'video'\<close>. Optional fields (\<open>error?\<close>, \<open>media?\<close>,
  \<open>bluesky_handle?\<close>) are options: \<open>None\<close> is an absent (undefined or null) field.
  The fields \<open>id\<close>, \<open>text\<close> and \<open>type\<close> are written \<open>post_id\<close>, \<open>post_text\<close>
  and \<open>media_type\<close>.
\<close>

datatype post_status = Scheduled | Published | Failed

datatype media_kind = Image | Video

record MediaFile =
  mimeType :: string
  media_type :: media_kind
  base64 :: string

record Post =
  post_id :: string
  post_text :: string
  scheduledFor :: string
  status :: post_status
  error :: "string option"
  media :: "MediaFile list option"
  bluesky_handle :: "string option"

record AuthState =
  handle :: string
  password :: string
  isAuthenticated :: bool

text \<open>JavaScript truthiness of a string: only the empty string is falsy.\<close>

definition truthy :: "string \<Rightarrow> bool" where
  "truthy s = (s \<noteq> [])"

text \<open>
  A value caught by a \<open>catch\<close> clause: an \<open>Error\<close> instance with its \<open>name\<close> and
  \<open>message\<close>, or any other thrown value.
\<close>

datatype thrown = ErrorObj string string | NonError

section \<open>The AuthContext\<close>

text \<open>
  The values that \<open>setAuth\<close> is given in AuthContext.tsx: the signed-out state (the
  initial state, no user, and \<open>logout\<close>), the saved credentials after their login has
  succeeded, and the credentials of a \<open>login\<close> that has succeeded and been saved, with
  a leading \<open>@\<close> taken off the handle. A login that throws leaves the state as it is.
\<close>

definition signed_out :: AuthState where
  "signed_out = \<lparr>handle = [], password = [], isAuthenticated = False\<rparr>"

datatype auth_action =
    NoUser
  | SavedCredentialsLogin string string
  | LoginSucceeded string string
  | Logout

definition formattedHandle :: "string \<Rightarrow> string" where
  "formattedHandle h = (case h of [] \<Rightarrow> h | c # cs \<Rightarrow> if c = CHR ''@'' then cs else h)"

definition auth_step :: "auth_action \<Rightarrow> AuthState \<Rightarrow> AuthState" where
  "auth_step ac a =
     (case ac of
        NoUser \<Rightarrow> signed_out
      | SavedCredentialsLogin h pw \<Rightarrow>
          if truthy h \<and> truthy pw then \<lparr>handle = h, password = pw, isAuthenticated = True\<rparr> else a
      | LoginSucceeded h pw \<Rightarrow>
          \<lparr>handle = formattedHandle h, password = pw, isAuthenticated = True\<rparr>
      | Logout \<Rightarrow> signed_out)"

definition auth_after :: "auth_action list \<Rightarrow> AuthState" where
  "auth_after acs = foldl (\<lambda>a ac. auth_step ac a) signed_out acs"

section \<open>The Post Store: the table of the posts and the SQL scripts\<close>

text \<open>
  A row of the table \<open>scheduled_posts\<close>, with the columns of the migration script.
  Timestamps are instants (milliseconds).
\<close>

record row =
  row_id :: string
  row_user_id :: string
  row_handle :: string
  row_text :: string
  row_scheduled_for :: int
  row_status :: post_status
  row_error :: "string option"
  row_media :: "MediaFile list option"
  row_created_at :: int
  row_updated_at :: int

subsection \<open>Functions of the migration script\<close>

text \<open>
  The bodies of the three PL/pgSQL functions. A trigger function gets \<open>OLD\<close> and \<open>NEW\<close>
  and returns the row that is written; \<open>now\<close> is \<open>NOW()\<close>. Instants are milliseconds, and
  the interval of 90 days is 90 days of 24 hours (the time zone of the database is UTC).
\<close>

definition update_updated_at_column :: "int \<Rightarrow> row \<Rightarrow> row \<Rightarrow> row" where
  "update_updated_at_column now old new = new\<lparr>row_updated_at := now\<rparr>"

definition clear_media_after_publish :: "row \<Rightarrow> row \<Rightarrow> row" where
  "clear_media_after_publish old new =
     (if row_status new = Published \<and> row_status old = Scheduled
      then new\<lparr>row_media := None\<rparr> else new)"

definition ninety_days :: int where
  "ninety_days = 90 * 24 * 60 * 60 * 1000"

definition delete_old_posts :: "int \<Rightarrow> row list \<Rightarrow> row list" where
  "delete_old_posts now rows =
     filter (\<lambda>r. \<not> (row_status r = Published \<and> row_updated_at r < now - ninety_days)) rows"

subsection \<open>Statements and the schema they build\<close>

datatype fn_body = TrgUpdateUpdatedAt | TrgClearMedia | FnDeleteOldPosts

text \<open>A cron schedule: minute, hour, day of month, month, day of week; \<open>None\<close> is \<open>*\<close>.\<close>

record cron =
  c_minute :: "nat option"
  c_hour :: "nat option"
  c_dom :: "nat option"
  c_month :: "nat option"
  c_dow :: "nat option"

datatype stmt =
    DropTableIfExists string
  | CreateTableIfNotExists string "string list"
  | EnableRLS string
  | CreatePolicy string string
  | CreateOrReplaceFunction string fn_body
  | CreateTrigger string string string
  | CronSchedule string cron string

datatype sql_error =
    UndefinedTable string
  | UndefinedColumn string
  | UndefinedFunction string
  | DuplicateObject string
  | UniqueViolation string

text \<open>
  The catalogue: tables with their columns, tables with row level security, policies
  (name, table), functions, \<open>BEFORE UPDATE ... FOR EACH ROW\<close> triggers (name, table,
  function) and cron jobs (name, schedule, function called).
\<close>

record schema =
  sch_tables :: "(string \<times> string list) list"
  sch_rls :: "string list"
  sch_policies :: "(string \<times> string) list"
  sch_functions :: "(string \<times> fn_body) list"
  sch_triggers :: "(string \<times> string \<times> string) list"
  sch_jobs :: "(string \<times> cron \<times> string) list"

definition empty_schema :: schema where
  "empty_schema =
     \<lparr>sch_tables = [], sch_rls = [], sch_policies = [], sch_functions = [],
      sch_triggers = [], sch_jobs = []\<rparr>"

definition has_table :: "schema \<Rightarrow> string \<Rightarrow> bool" where
  "has_table sch t = (t \<in> set (map fst (sch_tables sch)))"

definition is_trigger_function :: "fn_body \<Rightarrow> bool" where
  "is_trigger_function b = (case b of FnDeleteOldPosts \<Rightarrow> False | _ \<Rightarrow> True)"

text \<open>
  \<open>DROP TABLE\<close> takes the triggers and policies of the table with it; \<open>CREATE TABLE IF
  NOT EXISTS\<close> leaves an existing table as it is; \<open>CREATE POLICY\<close> and \<open>CREATE TRIGGER\<close>
  fail on a name that the table already has; \<open>cron.schedule\<close> replaces the job of the
  same name.
\<close>

definition exec_stmt :: "stmt \<Rightarrow> schema \<Rightarrow> sql_error + schema" where
  "exec_stmt st sch =
     (case st of
        DropTableIfExists t \<Rightarrow>
          Inr (sch\<lparr>sch_tables := filter (\<lambda>(n, cols). n \<noteq> t) (sch_tables sch),
                   sch_rls := filter (\<lambda>n. n \<noteq> t) (sch_rls sch),
                   sch_policies := filter (\<lambda>(p, n). n \<noteq> t) (sch_policies sch),
                   sch_triggers := filter (\<lambda>(g, n, f). n \<noteq> t) (sch_triggers sch)\<rparr>)
      | CreateTableIfNotExists t cols \<Rightarrow>
          if has_table sch t then Inr sch
          else Inr (sch\<lparr>sch_tables := sch_tables sch @ [(t, cols)]\<rparr>)
      | EnableRLS t \<Rightarrow>
          if \<not> has_table sch t then Inl (UndefinedTable t)
          else Inr (sch\<lparr>sch_rls := List.insert t (sch_rls sch)\<rparr>)
      | CreatePolicy p t \<Rightarrow>
          if \<not> has_table sch t then Inl (UndefinedTable t)
          else if (p, t) \<in> set (sch_policies sch) then Inl (DuplicateObject p)
          else Inr (sch\<lparr>sch_policies := sch_policies sch @ [(p, t)]\<rparr>)
      | CreateOrReplaceFunction f b \<Rightarrow>
          Inr (sch\<lparr>sch_functions := filter (\<lambda>(n, b'). n \<noteq> f) (sch_functions sch) @ [(f, b)]\<rparr>)
      | CreateTrigger g t f \<Rightarrow>
          if \<not> has_table sch t then Inl (UndefinedTable t)
          else
            (case map_of (sch_functions sch) f of
               None \<Rightarrow> Inl (UndefinedFunction f)
             | Some b \<Rightarrow>
                 if \<not> is_trigger_function b then Inl (UndefinedFunction f)
                 else if (g, t) \<in> set (map (\<lambda>(g', t', f'). (g', t')) (sch_triggers sch))
                 then Inl (DuplicateObject g)
                 else Inr (sch\<lparr>sch_triggers := sch_triggers sch @ [(g, t, f)]\<rparr>))
      | CronSchedule j c f \<Rightarrow>
          Inr (sch\<lparr>sch_jobs := filter (\<lambda>(n, c', f'). n \<noteq> j) (sch_jobs sch) @ [(j, c, f)]\<rparr>))"

text \<open>A script stops at the first statement that fails.\<close>

fun run_script :: "stmt list \<Rightarrow> schema \<Rightarrow> sql_error + schema" where
  "run_script [] sch = Inr sch"
| "run_script (st # sts) sch =
     (case exec_stmt st sch of Inl err \<Rightarrow> Inl err | Inr sch' \<Rightarrow> run_script sts sch')"

subsection \<open>UPDATE of a row, and the cron job\<close>

definition trigger_fn :: "fn_body \<Rightarrow> int \<Rightarrow> row \<Rightarrow> row \<Rightarrow> row" where
  "trigger_fn b now old new =
     (case b of
        TrgUpdateUpdatedAt \<Rightarrow> update_updated_at_column now old new
      | TrgClearMedia \<Rightarrow> clear_media_after_publish old new
      | FnDeleteOldPosts \<Rightarrow> new)"

text \<open>The triggers of a table fire in the alphabetical order of their names.\<close>

definition triggers_of :: "schema \<Rightarrow> string \<Rightarrow> fn_body list" where
  "triggers_of sch t =
     concat (map (\<lambda>(g, n, f). case map_of (sch_functions sch) f of None \<Rightarrow> [] | Some b \<Rightarrow> [b])
       (sort_key fst (filter (\<lambda>(g, n, f). n = t) (sch_triggers sch))))"

definition fire_triggers :: "schema \<Rightarrow> string \<Rightarrow> int \<Rightarrow> row \<Rightarrow> row \<Rightarrow> row" where
  "fire_triggers sch t now old new = foldl (\<lambda>nw b. trigger_fn b now old nw) new (triggers_of sch t)"

text \<open>
  A statement on the table of the posts names columns, in what it sets and in its
  conditions: it is refused when the table is not there or lacks one of them.
\<close>

definition missing_columns :: "schema \<Rightarrow> string list \<Rightarrow> sql_error option" where
  "missing_columns sch cols =
     (case map_of (sch_tables sch) ''scheduled_posts'' of
        None \<Rightarrow> Some (UndefinedTable ''scheduled_posts'')
      | Some cs \<Rightarrow>
          (case filter (\<lambda>c. c \<notin> set cs) cols of
             [] \<Rightarrow> None
           | c # others \<Rightarrow> Some (UndefinedColumn c)))"

text \<open>
  \<open>UPDATE scheduled_posts SET ... WHERE ...\<close>: \<open>assign\<close> gives the new row of the \<open>SET\<close>
  clause from the old one, and the triggers see both; \<open>now\<close> is the clock of the
  database.
\<close>

definition sql_update :: "schema \<Rightarrow> int \<Rightarrow> string list \<Rightarrow> (row \<Rightarrow> bool) \<Rightarrow> (row \<Rightarrow> row) \<Rightarrow> row list \<Rightarrow> sql_error + row list" where
  "sql_update sch now cols cond assign rows =
     (case missing_columns sch cols of
        Some err \<Rightarrow> Inl err
      | None \<Rightarrow>
          Inr (map (\<lambda>r. if cond r then fire_triggers sch ''scheduled_posts'' now r (assign r) else r)
                 rows))"

text \<open>
  \<open>INSERT INTO scheduled_posts\<close>: the primary key \<open>id\<close> is unique; the columns that the
  statement does not name take their defaults, which the caller has put into the row.
  \<open>DELETE FROM scheduled_posts WHERE ...\<close>. No trigger of the scripts fires on either.
\<close>

definition sql_insert :: "schema \<Rightarrow> string list \<Rightarrow> row \<Rightarrow> row list \<Rightarrow> sql_error + row list" where
  "sql_insert sch cols r rows =
     (case missing_columns sch cols of
        Some err \<Rightarrow> Inl err
      | None \<Rightarrow>
          if row_id r \<in> set (map row_id rows) then Inl (UniqueViolation (row_id r))
          else Inr (rows @ [r]))"

definition sql_delete :: "schema \<Rightarrow> string list \<Rightarrow> (row \<Rightarrow> bool) \<Rightarrow> row list \<Rightarrow> sql_error + row list" where
  "sql_delete sch cols cond rows =
     (case missing_columns sch cols of
        Some err \<Rightarrow> Inl err
      | None \<Rightarrow> Inr (filter (\<lambda>r. \<not> cond r) rows))"

fun field_matches :: "nat option \<Rightarrow> nat \<Rightarrow> bool" where
  "field_matches None v = True"
| "field_matches (Some x) v = (x = v)"

text \<open>
  When a cron schedule fires, given minute, hour, day of month, month and day of week of
  the clock. With both day fields restricted, either may match.
\<close>

definition cron_fires :: "cron \<Rightarrow> nat \<Rightarrow> nat \<Rightarrow> nat \<Rightarrow> nat \<Rightarrow> nat \<Rightarrow> bool" where
  "cron_fires c mi h d mo dw =
     (field_matches (c_minute c) mi \<and> field_matches (c_hour c) h \<and> field_matches (c_month c) mo \<and>
      (if c_dom c \<noteq> None \<and> c_dow c \<noteq> None
       then field_matches (c_dom c) d \<or> field_matches (c_dow c) dw
       else field_matches (c_dom c) d \<and> field_matches (c_dow c) dw))"

text \<open>One run of the job \<open>j\<close>: it calls its function on the table.\<close>

definition run_job :: "schema \<Rightarrow> string \<Rightarrow> int \<Rightarrow> row list \<Rightarrow> sql_error + row list" where
  "run_job sch j now rows =
     (case map_of (sch_jobs sch) j of
        None \<Rightarrow> Inr rows
      | Some (c, f) \<Rightarrow>
          (case map_of (sch_functions sch) f of
             None \<Rightarrow> Inl (UndefinedFunction f)
           | Some b \<Rightarrow>
               (case b of
                  FnDeleteOldPosts \<Rightarrow>
                    if has_table sch ''scheduled_posts'' then Inr (delete_old_posts now rows)
                    else Inl (UndefinedTable ''scheduled_posts'')
                | _ \<Rightarrow> Inl (UndefinedFunction f))))"

subsection \<open>The two scripts\<close>

definition migration_script :: "stmt list" where
  "migration_script =
     [CreateTableIfNotExists ''bluesky_credentials''
        [''id'', ''user_id'', ''handle'', ''password'', ''created_at'', ''updated_at''],
      CreateTableIfNotExists ''scheduled_posts''
        [''id'', ''user_id'', ''bluesky_handle'', ''text'', ''scheduled_for'', ''status'', ''error'',
         ''media'', ''created_at'', ''updated_at''],
      EnableRLS ''bluesky_credentials'',
      EnableRLS ''scheduled_posts'',
      CreatePolicy ''Users can insert their own credentials'' ''bluesky_credentials'',
      CreatePolicy ''Users can view their own credentials'' ''bluesky_credentials'',
      CreatePolicy ''Users can update their own credentials'' ''bluesky_credentials'',
      CreatePolicy ''Users can delete their own credentials'' ''bluesky_credentials'',
      CreatePolicy ''Users can insert their own posts'' ''scheduled_posts'',
      CreatePolicy ''Users can view their own posts'' ''scheduled_posts'',
      CreatePolicy ''Users can update their own posts'' ''scheduled_posts'',
      CreatePolicy ''Users can delete their own posts'' ''scheduled_posts'',
      CreateOrReplaceFunction ''update_updated_at_column'' TrgUpdateUpdatedAt,
      CreateTrigger ''update_bluesky_credentials_updated_at'' ''bluesky_credentials''
        ''update_updated_at_column'',
      CreateTrigger ''update_scheduled_posts_updated_at'' ''scheduled_posts''
        ''update_updated_at_column'',
      CreateOrReplaceFunction ''clear_media_after_publish'' TrgClearMedia,
      CreateTrigger ''clear_media_after_publish'' ''scheduled_posts'' ''clear_media_after_publish'',
      CreateOrReplaceFunction ''delete_old_posts'' FnDeleteOldPosts,
      CronSchedule ''delete-old-posts''
        \<lparr>c_minute = Some 0, c_hour = Some 0, c_dom = None, c_month = None, c_dow = None\<rparr>
        ''delete_old_posts'']"

definition update_tables_script :: "stmt list" where
  "update_tables_script =
     [DropTableIfExists ''scheduled_posts'',
      DropTableIfExists ''bluesky_credentials'',
      CreateTableIfNotExists ''bluesky_credentials''
        [''id'', ''user_id'', ''handle'', ''password'', ''first_name'', ''last_name'', ''created_at'',
         ''updated_at''],
      CreateTableIfNotExists ''scheduled_posts''
        [''id'', ''user_id'', ''text'', ''scheduled_for'', ''status'', ''error'', ''media'',
         ''created_at'', ''updated_at''],
      EnableRLS ''bluesky_credentials'',
      EnableRLS ''scheduled_posts'',
      CreatePolicy ''Enable read access for users to their own credentials'' ''bluesky_credentials'',
      CreatePolicy ''Enable insert access for users to their own credentials'' ''bluesky_credentials'',
      CreatePolicy ''Enable update access for users to their own credentials'' ''bluesky_credentials'',
      CreatePolicy ''Enable delete access for users to their own credentials'' ''bluesky_credentials'',
      CreatePolicy ''Enable read access for users to their own posts'' ''scheduled_posts'',
      CreatePolicy ''Enable insert access for users to their own posts'' ''scheduled_posts'',
      CreatePolicy ''Enable update access for users to their own posts'' ''scheduled_posts'',
      CreatePolicy ''Enable delete access for users to their own posts'' ''scheduled_posts'',
      CreateOrReplaceFunction ''update_updated_at_column'' TrgUpdateUpdatedAt,
      CreateTrigger ''update_bluesky_credentials_updated_at'' ''bluesky_credentials''
        ''update_updated_at_column'',
      CreateTrigger ''update_scheduled_posts_updated_at'' ''scheduled_posts''
        ''update_updated_at_column'']"

text \<open>
  The schema after the migration script alone, and after the migration script followed by
  \<open>update_tables.sql\<close> (in the other order the second script stops at its first
  \<open>CREATE TRIGGER\<close>, whose name is taken).
\<close>

definition schema_of :: "sql_error + schema \<Rightarrow> schema" where
  "schema_of res = (case res of Inl err \<Rightarrow> empty_schema | Inr sch \<Rightarrow> sch)"

definition migrated_schema :: schema where
  "migrated_schema = schema_of (run_script migration_script empty_schema)"

definition updated_schema :: schema where
  "updated_schema = schema_of (run_script (migration_script @ update_tables_script) empty_schema)"

section \<open>The scheduler hook (usePostScheduler)\<close>

subsection \<open>Environment, store and network\<close>

text \<open>
  What the hook closes over: the \<open>auth\<close> state of the AuthContext and \<open>user?.id\<close> of
  the SupabaseContext (\<open>None\<close> when there is no user).
\<close>

record hook_env =
  auth :: AuthState
  user_id :: "string option"

definition has_user :: "hook_env \<Rightarrow> bool" where
  "has_user e = (case user_id e of None \<Rightarrow> False | Some u \<Rightarrow> truthy u)"

text \<open>
  The object passed to \<open>.update(...)\<close> by \<open>savePostToSupabase\<close>. A field that is
  undefined in the object is not part of the request body, so its column keeps its value
  (\<open>media: undefined\<close> of a published post writes nothing to the column \<open>media\<close>). A
  field that is null, as in a post loaded from the store, would write NULL; the option
  type does not tell the two apart, and no statement below depends on the difference.
\<close>

record payload =
  pl_status :: post_status
  pl_error :: "string option"
  pl_media :: "MediaFile list option"
  pl_updated_at :: int

definition apply_payload :: "payload \<Rightarrow> row \<Rightarrow> row" where
  "apply_payload pl r =
     r\<lparr>row_status := pl_status pl,
       row_error := (case pl_error pl of None \<Rightarrow> row_error r | Some m \<Rightarrow> Some m),
       row_media := (case pl_media pl of None \<Rightarrow> row_media r | Some ms \<Rightarrow> Some ms),
       row_updated_at := pl_updated_at pl\<rparr>"

definition row_matches :: "string \<Rightarrow> string \<Rightarrow> string \<Rightarrow> row \<Rightarrow> bool" where
  "row_matches pid uid h r = (row_id r = pid \<and> row_user_id r = uid \<and> row_handle r = h)"

text \<open>
  The columns that the request names: those of the fields that are defined in the object,
  and those of the three \<open>.eq(...)\<close> filters.
\<close>

definition payload_columns :: "payload \<Rightarrow> string list" where
  "payload_columns pl =
     [''status''] @ (case pl_error pl of None \<Rightarrow> [] | Some m \<Rightarrow> [''error'']) @
     (case pl_media pl of None \<Rightarrow> [] | Some ms \<Rightarrow> [''media'']) @ [''updated_at'']"

text \<open>
  The \<open>UPDATE\<close> that the request becomes in the database with the catalogue \<open>sch\<close>, at
  the instant \<open>now\<close> of the clock of the database: the triggers of the table fire on
  every row it writes.
\<close>

definition table_update :: "schema \<Rightarrow> int \<Rightarrow> string \<Rightarrow> string \<Rightarrow> string \<Rightarrow> payload \<Rightarrow> row list \<Rightarrow> sql_error + row list" where
  "table_update sch now pid uid h pl rows =
     sql_update sch now (payload_columns pl @ [''id'', ''user_id'', ''bluesky_handle''])
       (row_matches pid uid h) (apply_payload pl) rows"

text \<open>
  \<open>.select('status').eq('id', ..).eq('user_id', ..).eq('bluesky_handle', ..).single()\<close>:
  \<open>data\<close> is the row when exactly one row matches and null otherwise; without a user id
  no row matches. The result is \<open>currentPost?.status\<close>. A read that fails gives null
  data as well: the client of the store reports a failure in its result and does not
  throw (\<open>store_read_ok\<close> below). The read names the columns \<open>status_columns\<close>, and
  fails on a table that lacks one of them.
\<close>

definition status_columns :: "string list" where
  "status_columns = [''status'', ''id'', ''user_id'', ''bluesky_handle'']"

definition select_status :: "string \<Rightarrow> string option \<Rightarrow> string \<Rightarrow> row list \<Rightarrow> post_status option" where
  "select_status pid uid h rows =
     (case uid of
        None \<Rightarrow> None
      | Some u \<Rightarrow>
          (case filter (row_matches pid u h) rows of
             [r] \<Rightarrow> Some (row_status r)
           | _ \<Rightarrow> None))"

type_synonym blob = string

text \<open>
  What the upload call of \<open>uploadImageBlob\<close> meets: the call throws, or it answers with
  \<open>success\<close> and an optional blob reference.
\<close>

datatype upload_outcome = UploadThrows thrown | UploadAnswers bool "blob option"

text \<open>
  The answers of the network to one publish attempt, and the two clock readings
  (\<open>new Date()\<close>) of the attempt. \<open>upload_resp i\<close> answers the upload of the \<open>i\<close>-th
  attachment; \<open>settle_order\<close> is the order in which the upload promises settle.
  \<open>store_write_ok\<close> says that the write reaches the database; \<open>store_clock\<close> is the
  clock of the database (\<open>NOW()\<close>) when it does.
\<close>

record net =
  store_read_ok :: bool
  cred_error :: bool
  cred_data :: "(string \<times> string) option"
  login_resp :: "thrown option"
  upload_resp :: "nat \<Rightarrow> upload_outcome"
  settle_order :: "nat list"
  post_resp :: "thrown option"
  post_clock :: int
  store_write_ok :: bool
  save_clock :: int
  store_clock :: int

text \<open>
  Everything observable that the hook does, in the order in which it happens. The first
  argument of \<open>CreatePost\<close> is not sent to the Publish Client: it names the post whose
  attempt calls \<open>agent.post\<close>; the others are \<open>text\<close>, the images of \<open>embed\<close> and
  \<open>createdAt\<close>.
\<close>

datatype event =
    StatusRead string "string option" string
  | MarkProcessed string
  | CredentialsRead "string option"
  | Login string string
  | UploadBlob MediaFile
  | CreatePost string string "blob list option" int
  | OnPostUpdate Post
  | StoreWrite string string string payload
  | ToastSuccess string
  | ToastError string
  | ConsoleError string

text \<open>
  The state the hook works on: the ref \<open>processedPosts\<close>, the list \<open>scheduledPosts\<close> of the
  Dashboard (changed through the callback \<open>onPostUpdate\<close>), the table in the Post Store
  with the catalogue of its database, and the trace of events.
\<close>

record sched_state =
  processedPosts :: "string set"
  mirror :: "Post list"
  store :: "row list"
  catalogue :: schema
  trace :: "event list"

definition emit :: "event \<Rightarrow> sched_state \<Rightarrow> sched_state" where
  "emit ev s = s\<lparr>trace := trace s @ [ev]\<rparr>"

subsection \<open>onPostUpdate (the callback the Dashboard passes) and savePostToSupabase\<close>

definition onPostUpdate :: "Post \<Rightarrow> sched_state \<Rightarrow> sched_state" where
  "onPostUpdate updatedPost s =
     emit (OnPostUpdate updatedPost)
       (s\<lparr>mirror := map (\<lambda>p. if post_id p = post_id updatedPost then updatedPost else p) (mirror s)\<rparr>)"

definition save_payload :: "int \<Rightarrow> Post \<Rightarrow> payload" where
  "save_payload now post =
     \<lparr>pl_status = status post, pl_error = error post, pl_media = media post,
      pl_updated_at = now\<rparr>"

text \<open>
  The part of \<open>savePostToSupabase\<close> after the answer of the store has arrived: an error
  in the answer is thrown, caught and logged.
\<close>

definition save_answered :: "bool \<Rightarrow> int \<Rightarrow> string \<Rightarrow> string \<Rightarrow> string \<Rightarrow> payload \<Rightarrow> sched_state \<Rightarrow> sched_state" where
  "save_answered ok now pid uid h pl s =
     (if ok then
        (case table_update (catalogue s) now pid uid h pl (store s) of
           Inr rows \<Rightarrow> s\<lparr>store := rows\<rparr>
         | Inl err \<Rightarrow> emit (ConsoleError ''Error saving post to Supabase:'') s)
      else emit (ConsoleError ''Error saving post to Supabase:'') s)"

definition savePostToSupabase :: "hook_env \<Rightarrow> net \<Rightarrow> Post \<Rightarrow> sched_state \<Rightarrow> sched_state" where
  "savePostToSupabase e n post s =
     (case user_id e of
        None \<Rightarrow> s
      | Some uid \<Rightarrow>
          if \<not> truthy uid \<or> \<not> truthy (handle (auth e)) then s
          else
            let pl = save_payload (save_clock n) post
            in save_answered (store_write_ok n) (store_clock n) (post_id post) uid (handle (auth e)) pl
                 (emit (StoreWrite (post_id post) uid (handle (auth e)) pl) s))"

subsection \<open>uploadImageBlob (src/utils/imageUtils.ts) and Promise.all\<close>

text \<open>
  The decoding of an attachment (\<open>base64.split(',')[1]\<close> and \<open>atob\<close>) is a function of
  the attachment: \<open>decodes m\<close> is the value thrown when the text of \<open>m\<close> cannot be decoded.
  Such an attachment never reaches the network.
\<close>

record upload_env =
  decodes :: "MediaFile \<Rightarrow> thrown option"

text \<open>
  One call of \<open>uploadImageBlob\<close>, answered by \<open>resp\<close>: what it does before its \<open>await\<close>
  and after it, and how its promise settles. Every failure of the body is logged and
  wrapped in a new \<open>Error\<close>: the message of the caught value when that is an \<open>Error\<close>,
  the fixed text otherwise; an answer without success or without a blob reference is a
  failure too.
\<close>

record upload_run =
  before_await :: "event list"
  after_await :: "event list"
  settles :: "thrown + blob"

definition uploadImageBlob :: "upload_env \<Rightarrow> upload_outcome \<Rightarrow> MediaFile \<Rightarrow> upload_run" where
  "uploadImageBlob u resp m =
     (let rethrow = (\<lambda>t. Inl (ErrorObj ''Error''
                        (case t of ErrorObj nm msg \<Rightarrow> msg | NonError \<Rightarrow> ''Failed to upload image'')));
          logged = [ConsoleError ''Image upload error:''];
          no_blob = ErrorObj ''Error'' ''Failed to upload image: No blob reference received''
      in case decodes u m of
           Some t \<Rightarrow> \<lparr>before_await = logged, after_await = [], settles = rethrow t\<rparr>
         | None \<Rightarrow>
             (case resp of
                UploadThrows t \<Rightarrow>
                  \<lparr>before_await = [UploadBlob m], after_await = logged, settles = rethrow t\<rparr>
              | UploadAnswers success b \<Rightarrow>
                  (case b of
                     None \<Rightarrow>
                       \<lparr>before_await = [UploadBlob m], after_await = logged, settles = rethrow no_blob\<rparr>
                   | Some ref \<Rightarrow>
                       if \<not> success
                       then \<lparr>before_await = [UploadBlob m], after_await = logged,
                             settles = rethrow no_blob\<rparr>
                       else \<lparr>before_await = [UploadBlob m], after_await = [], settles = Inr ref\<rparr>)))"

fun rejections :: "(thrown + 'a) list \<Rightarrow> thrown list" where
  "rejections [] = []"
| "rejections (Inl t # rs) = t # rejections rs"
| "rejections (Inr x # rs) = rejections rs"

fun fulfilled :: "(thrown + 'a) list \<Rightarrow> 'a list" where
  "fulfilled [] = []"
| "fulfilled (Inl t # rs) = fulfilled rs"
| "fulfilled (Inr x # rs) = x # fulfilled rs"

text \<open>
  \<open>Promise.all\<close>: the values in the order of the promises when none rejects; otherwise
  the reason of the promise that rejects first. \<open>order\<close> lists the indices in the order
  in which the promises settle; an index it does not list settles after the listed ones.
\<close>

definition promise_all :: "nat list \<Rightarrow> (thrown + 'a) list \<Rightarrow> thrown + 'a list" where
  "promise_all order rs =
     (case rejections rs of
        [] \<Rightarrow> Inr (fulfilled rs)
      | t0 # ts \<Rightarrow>
          (case rejections (map (\<lambda>i. rs ! i) (filter (\<lambda>i. i < length rs) order)) of
             [] \<Rightarrow> Inl t0
           | t # ts' \<Rightarrow> Inl t))"

subsection \<open>publishPost\<close>

text \<open>
  \<open>post.media.map(media => uploadImageBlob(agent, media))\<close>: the upload of the \<open>i\<close>-th
  attachment is answered by \<open>upload_resp n i\<close>. The calls run up to their \<open>await\<close> one after
  the other; the answers arrive in the order \<open>settle_order n\<close>, those it does not list
  after the others. A promise whose decoding failed is rejected before any answer
  arrives. The trace lists what the uploads log on their answers together, before what
  follows \<open>Promise.all\<close>: an upload that is answered after the first rejection logs its
  error while the \<open>catch\<close> clause of \<open>publishPost\<close> is already at work.
\<close>

definition upload_runs :: "upload_env \<Rightarrow> net \<Rightarrow> MediaFile list \<Rightarrow> upload_run list" where
  "upload_runs u n ms =
     map (\<lambda>(i, m). uploadImageBlob u (upload_resp n i) m) (zip [0 ..< length ms] ms)"

definition arrival :: "net \<Rightarrow> nat \<Rightarrow> nat list" where
  "arrival n k =
     filter (\<lambda>i. i < k) (remdups (settle_order n)) @
     filter (\<lambda>i. i \<notin> set (settle_order n)) [0 ..< k]"

definition settled :: "upload_env \<Rightarrow> net \<Rightarrow> MediaFile list \<Rightarrow> nat list" where
  "settled u n ms =
     filter (\<lambda>i. decodes u (ms ! i) \<noteq> None) [0 ..< length ms] @ arrival n (length ms)"

definition upload_calls :: "upload_env \<Rightarrow> net \<Rightarrow> MediaFile list \<Rightarrow> event list" where
  "upload_calls u n ms = concat (map before_await (upload_runs u n ms))"

definition upload_answers :: "upload_env \<Rightarrow> net \<Rightarrow> MediaFile list \<Rightarrow> event list" where
  "upload_answers u n ms =
     concat (map (\<lambda>i. after_await (upload_runs u n ms ! i)) (arrival n (length ms)))"

definition upload_all :: "upload_env \<Rightarrow> net \<Rightarrow> MediaFile list \<Rightarrow> thrown + blob list" where
  "upload_all u n ms = promise_all (settled u n ms) (map settles (upload_runs u n ms))"

definition error_message :: "thrown \<Rightarrow> string" where
  "error_message t = (case t of ErrorObj nm m \<Rightarrow> m | NonError \<Rightarrow> ''Failed to publish post'')"

definition credentials_usable :: "net \<Rightarrow> bool" where
  "credentials_usable n =
     (\<not> cred_error n \<and> (case cred_data n of None \<Rightarrow> False | Some (h, pw) \<Rightarrow> truthy h \<and> truthy pw))"

text \<open>The statements of the \<open>try\<close> block that follow the call of \<open>agent.post\<close>.\<close>

definition publish_succeeded :: "hook_env \<Rightarrow> net \<Rightarrow> Post \<Rightarrow> sched_state \<Rightarrow> sched_state" where
  "publish_succeeded e n post s =
     (let updatedPost = post\<lparr>status := Published, media := None\<rparr>
      in emit (ToastSuccess ''Post published successfully!'')
           (savePostToSupabase e n updatedPost (onPostUpdate updatedPost s)))"

text \<open>The \<open>catch\<close> clause.\<close>

definition publish_failed :: "hook_env \<Rightarrow> net \<Rightarrow> Post \<Rightarrow> thrown \<Rightarrow> sched_state \<Rightarrow> sched_state" where
  "publish_failed e n post t s =
     (let errorMessage = error_message t;
          updatedPost = post\<lparr>status := Failed, error := Some errorMessage\<rparr>
      in emit (ToastError (''Failed to publish post: '' @ errorMessage))
           (savePostToSupabase e n updatedPost
              (onPostUpdate updatedPost (emit (ConsoleError ''Failed to publish post:'') s))))"

text \<open>
  The \<open>try\<close> block from the reading of the credentials to \<open>agent.post\<close>: the thrown
  value, if any, and the state.
\<close>

definition publish_body :: "upload_env \<Rightarrow> hook_env \<Rightarrow> net \<Rightarrow> Post \<Rightarrow> sched_state \<Rightarrow> thrown option \<times> sched_state" where
  "publish_body u e n post s =
     (let s1 = emit (CredentialsRead (user_id e)) s
      in if \<not> credentials_usable n
         then (Some (ErrorObj ''Error'' ''Failed to retrieve Bluesky credentials''), s1)
         else
           (case cred_data n of
              None \<Rightarrow> (Some (ErrorObj ''Error'' ''Failed to retrieve Bluesky credentials''), s1)
            | Some (h, pw) \<Rightarrow>
                let s2 = emit (Login h pw) s1
                in (case login_resp n of
                      Some t \<Rightarrow> (Some t, s2)
                    | None \<Rightarrow>
                        let ms = (case media post of None \<Rightarrow> [] | Some l \<Rightarrow> l);
                            s3 = s2\<lparr>trace := trace s2 @ upload_calls u n ms @ upload_answers u n ms\<rparr>;
                            uploaded = (if ms = [] then Inr None
                                        else map_sum id Some (upload_all u n ms))
                        in (case uploaded of
                              Inl t \<Rightarrow> (Some t, s3)
                            | Inr images \<Rightarrow>
                                let s4 = emit (CreatePost (post_id post) (post_text post) images (post_clock n)) s3
                                in (post_resp n, s4)))))"

definition publishPost :: "upload_env \<Rightarrow> hook_env \<Rightarrow> net \<Rightarrow> Post \<Rightarrow> sched_state \<Rightarrow> sched_state" where
  "publishPost u e n post s =
     (if \<not> isAuthenticated (auth e) \<or> \<not> truthy (handle (auth e)) then
        let updatedPost = post\<lparr>status := Failed, error := Some ''Not authenticated with Bluesky''\<rparr>
        in savePostToSupabase e n updatedPost (onPostUpdate updatedPost s)
      else if post_id post \<in> processedPosts s then s
      else
        let s1 = emit (StatusRead (post_id post) (user_id e) (handle (auth e))) s;
            currentStatus = (if store_read_ok n \<and> missing_columns (catalogue s1) status_columns = None
                             then select_status (post_id post) (user_id e) (handle (auth e)) (store s1)
                             else None)
        in if currentStatus \<noteq> Some Scheduled then s1
           else
             let s2 = emit (MarkProcessed (post_id post))
                        (s1\<lparr>processedPosts := insert (post_id post) (processedPosts s1)\<rparr>)
             in (case publish_body u e n post s2 of
                   (None, s3) \<Rightarrow> publish_succeeded e n post s3
                 | (Some t, s3) \<Rightarrow> publish_failed e n post t s3))"

subsection \<open>publishPost between its await points\<close>

text \<open>
  An attempt gives control back at each \<open>await\<close> on the network, and another timer
  callback may run there. \<open>pc\<close> names the await at which an attempt is suspended;
  \<open>AwaitSave\<close> remembers the write that was sent and the toast that follows it.
\<close>

datatype save_cont = AfterGuard | AfterSuccess | AfterFailure string

datatype pc =
    AwaitStatus
  | AwaitCredentials
  | AwaitLogin
  | AwaitUploads
  | AwaitPost
  | AwaitSave save_cont string string string payload

definition start_save :: "hook_env \<Rightarrow> net \<Rightarrow> Post \<Rightarrow> save_cont \<Rightarrow> sched_state \<Rightarrow> pc option \<times> sched_state" where
  "start_save e n post k s =
     (case user_id e of
        None \<Rightarrow> (None, s)
      | Some uid \<Rightarrow>
          if \<not> truthy uid \<or> \<not> truthy (handle (auth e)) then (None, s)
          else
            let pl = save_payload (save_clock n) post
            in (Some (AwaitSave k (post_id post) uid (handle (auth e)) pl),
                emit (StoreWrite (post_id post) uid (handle (auth e)) pl) s))"

definition after_save :: "save_cont \<Rightarrow> sched_state \<Rightarrow> sched_state" where
  "after_save k s =
     (case k of
        AfterGuard \<Rightarrow> s
      | AfterSuccess \<Rightarrow> emit (ToastSuccess ''Post published successfully!'') s
      | AfterFailure errorMessage \<Rightarrow> emit (ToastError (''Failed to publish post: '' @ errorMessage)) s)"

text \<open>A save that does not reach the network is followed by its toast at once.\<close>

definition save_then :: "hook_env \<Rightarrow> net \<Rightarrow> Post \<Rightarrow> save_cont \<Rightarrow> sched_state \<Rightarrow> pc option \<times> sched_state" where
  "save_then e n post k s =
     (case start_save e n post k s of
        (None, s') \<Rightarrow> (None, after_save k s')
      | (Some p, s') \<Rightarrow> (Some p, s'))"

definition catch_clause :: "hook_env \<Rightarrow> net \<Rightarrow> Post \<Rightarrow> thrown \<Rightarrow> sched_state \<Rightarrow> pc option \<times> sched_state" where
  "catch_clause e n post t s =
     (let errorMessage = error_message t;
          updatedPost = post\<lparr>status := Failed, error := Some errorMessage\<rparr>
      in save_then e n updatedPost (AfterFailure errorMessage)
           (onPostUpdate updatedPost (emit (ConsoleError ''Failed to publish post:'') s)))"

definition call_post :: "net \<Rightarrow> Post \<Rightarrow> blob list option \<Rightarrow> sched_state \<Rightarrow> pc option \<times> sched_state" where
  "call_post n post images s =
     (Some AwaitPost, emit (CreatePost (post_id post) (post_text post) images (post_clock n)) s)"

text \<open>From the call of \<open>publishPost\<close> to its first await, or to its return.\<close>

definition start_publish :: "hook_env \<Rightarrow> net \<Rightarrow> Post \<Rightarrow> sched_state \<Rightarrow> pc option \<times> sched_state" where
  "start_publish e n post s =
     (if \<not> isAuthenticated (auth e) \<or> \<not> truthy (handle (auth e)) then
        let updatedPost = post\<lparr>status := Failed, error := Some ''Not authenticated with Bluesky''\<rparr>
        in save_then e n updatedPost AfterGuard (onPostUpdate updatedPost s)
      else if post_id post \<in> processedPosts s then (None, s)
      else (Some AwaitStatus, emit (StatusRead (post_id post) (user_id e) (handle (auth e))) s))"

text \<open>From the answer to the await \<open>p\<close> to the next await, or to the return.\<close>

definition resume_publish :: "upload_env \<Rightarrow> hook_env \<Rightarrow> net \<Rightarrow> Post \<Rightarrow> pc \<Rightarrow> sched_state \<Rightarrow> pc option \<times> sched_state" where
  "resume_publish u e n post p s =
     (case p of
        AwaitStatus \<Rightarrow>
          let currentStatus = (if store_read_ok n \<and> missing_columns (catalogue s) status_columns = None
                               then select_status (post_id post) (user_id e) (handle (auth e)) (store s)
                               else None)
          in if currentStatus \<noteq> Some Scheduled then (None, s)
             else (Some AwaitCredentials,
                   emit (CredentialsRead (user_id e))
                     (emit (MarkProcessed (post_id post))
                        (s\<lparr>processedPosts := insert (post_id post) (processedPosts s)\<rparr>)))
      | AwaitCredentials \<Rightarrow>
          if \<not> credentials_usable n
          then catch_clause e n post (ErrorObj ''Error'' ''Failed to retrieve Bluesky credentials'') s
          else
            (case cred_data n of
               None \<Rightarrow> catch_clause e n post (ErrorObj ''Error'' ''Failed to retrieve Bluesky credentials'') s
             | Some (h, pw) \<Rightarrow> (Some AwaitLogin, emit (Login h pw) s))
      | AwaitLogin \<Rightarrow>
          (case login_resp n of
             Some t \<Rightarrow> catch_clause e n post t s
           | None \<Rightarrow>
               let ms = (case media post of None \<Rightarrow> [] | Some l \<Rightarrow> l)
               in if ms = [] then call_post n post None s
                  else (Some AwaitUploads, s\<lparr>trace := trace s @ upload_calls u n ms\<rparr>))
      | AwaitUploads \<Rightarrow>
          let ms = (case media post of None \<Rightarrow> [] | Some l \<Rightarrow> l);
              s' = s\<lparr>trace := trace s @ upload_answers u n ms\<rparr>
          in (case upload_all u n ms of
                Inl t \<Rightarrow> catch_clause e n post t s'
              | Inr blobs \<Rightarrow> call_post n post (Some blobs) s')
      | AwaitPost \<Rightarrow>
          (case post_resp n of
             Some t \<Rightarrow> catch_clause e n post t s
           | None \<Rightarrow>
               let updatedPost = post\<lparr>status := Published, media := None\<rparr>
               in save_then e n updatedPost AfterSuccess (onPostUpdate updatedPost s))
      | AwaitSave k pid uid h pl \<Rightarrow>
          (None, after_save k (save_answered (store_write_ok n) (store_clock n) pid uid h pl s)))"

text \<open>An attempt that no other callback interrupts: every await is answered in turn.\<close>

definition resume_next :: "upload_env \<Rightarrow> hook_env \<Rightarrow> net \<Rightarrow> Post \<Rightarrow> pc option \<times> sched_state \<Rightarrow> pc option \<times> sched_state" where
  "resume_next u e n post x =
     (case x of
        (None, s) \<Rightarrow> (None, s)
      | (Some p, s) \<Rightarrow> resume_publish u e n post p s)"

definition run_alone :: "upload_env \<Rightarrow> hook_env \<Rightarrow> net \<Rightarrow> Post \<Rightarrow> sched_state \<Rightarrow> pc option \<times> sched_state" where
  "run_alone u e n post s =
     (resume_next u e n post ^^ 6) (start_publish e n post s)"

subsection \<open>checkScheduledPosts and the effect\<close>

text \<open>
  \<open>new Date(text)\<close> is taken as a parameter \<open>parseDate\<close>: the instant of a date text, or
  \<open>None\<close> for an Invalid Date, which compares false with everything.
\<close>

definition is_due :: "(string \<Rightarrow> int option) \<Rightarrow> int \<Rightarrow> Post \<Rightarrow> bool" where
  "is_due parseDate now post =
     (case parseDate (scheduledFor post) of None \<Rightarrow> False | Some scheduledTime \<Rightarrow> scheduledTime \<le> now)"

text \<open>
  One run of \<open>checkScheduledPosts\<close>: the posts it has not reached yet (each with the
  answers the network will give to its attempt) and the attempt it is waiting for.
\<close>

record tick =
  tick_now :: int
  queue :: "(Post \<times> net) list"
  current :: "(Post \<times> net \<times> pc) option"

text \<open>
  The \<open>for\<close> loop from its head to the next await of an attempt, or to its end. An
  attempt that returns without waiting for the network lets no other callback in: the
  loop goes on at once.
\<close>

fun check_loop :: "(string \<Rightarrow> int option) \<Rightarrow> hook_env \<Rightarrow> int \<Rightarrow> (Post \<times> net) list \<Rightarrow> sched_state \<Rightarrow> tick \<times> sched_state" where
  "check_loop parseDate e now [] s = (\<lparr>tick_now = now, queue = [], current = None\<rparr>, s)"
| "check_loop parseDate e now ((post, n) # rest) s =
     (if status post \<noteq> Scheduled then check_loop parseDate e now rest s
      else if is_due parseDate now post \<and> post_id post \<notin> processedPosts s then
        (case start_publish e n post s of
           (None, s') \<Rightarrow> check_loop parseDate e now rest s'
         | (Some p, s') \<Rightarrow> (\<lparr>tick_now = now, queue = rest, current = Some (post, n, p)\<rparr>, s'))
      else check_loop parseDate e now rest s)"

definition resume_tick :: "(string \<Rightarrow> int option) \<Rightarrow> upload_env \<Rightarrow> hook_env \<Rightarrow> tick \<Rightarrow> sched_state \<Rightarrow> tick \<times> sched_state" where
  "resume_tick parseDate u e t s =
     (case current t of
        None \<Rightarrow> (t, s)
      | Some (post, n, p) \<Rightarrow>
          (case resume_publish u e n post p s of
             (None, s') \<Rightarrow> check_loop parseDate e (tick_now t) (queue t) s'
           | (Some p', s') \<Rightarrow> (t\<lparr>current := Some (post, n, p')\<rparr>, s')))"

text \<open>
  One activation of the effect: the list \<open>scheduledPosts\<close> it closes over, the runs of
  \<open>checkScheduledPosts\<close> in flight, and whether the interval is still set. The effect
  sets nothing up without a user id and a handle.
\<close>

record activation =
  act_env :: hook_env
  act_posts :: "Post list"
  sched :: sched_state
  ticks :: "tick list"
  interval_set :: bool

datatype action =
    TimerFires int "nat \<Rightarrow> net"
  | Answer nat
  | Cleanup

definition with_answers :: "(nat \<Rightarrow> net) \<Rightarrow> Post list \<Rightarrow> (Post \<times> net) list" where
  "with_answers nets posts = map (\<lambda>(i, post). (post, nets i)) (zip [0 ..< length posts] posts)"

definition checkScheduledPosts :: "(string \<Rightarrow> int option) \<Rightarrow> int \<Rightarrow> (nat \<Rightarrow> net) \<Rightarrow> activation \<Rightarrow> activation" where
  "checkScheduledPosts parseDate now nets a =
     (case check_loop parseDate (act_env a) now (with_answers nets (act_posts a)) (sched a) of
        (t, s') \<Rightarrow> a\<lparr>sched := s', ticks := ticks a @ [t]\<rparr>)"

text \<open>The guard of the effect: it returns at once without a user id or a handle.\<close>

definition effect_runs :: "hook_env \<Rightarrow> bool" where
  "effect_runs e = (has_user e \<and> truthy (handle (auth e)))"

definition effect_setup :: "(string \<Rightarrow> int option) \<Rightarrow> hook_env \<Rightarrow> Post list \<Rightarrow> int \<Rightarrow> (nat \<Rightarrow> net) \<Rightarrow> sched_state \<Rightarrow> activation" where
  "effect_setup parseDate e posts now nets s =
     (let a = \<lparr>act_env = e, act_posts = posts, sched = s, ticks = [], interval_set = False\<rparr>
      in if \<not> effect_runs e then a
         else checkScheduledPosts parseDate now nets (a\<lparr>interval_set := True\<rparr>))"

definition step :: "(string \<Rightarrow> int option) \<Rightarrow> upload_env \<Rightarrow> action \<Rightarrow> activation \<Rightarrow> activation" where
  "step parseDate u ac a =
     (case ac of
        TimerFires now nets \<Rightarrow> if interval_set a then checkScheduledPosts parseDate now nets a else a
      | Answer i \<Rightarrow>
          if i < length (ticks a) then
            (case resume_tick parseDate u (act_env a) (ticks a ! i) (sched a) of
               (t, s') \<Rightarrow> a\<lparr>sched := s', ticks := (ticks a)[i := t]\<rparr>)
          else a
      | Cleanup \<Rightarrow>
          if interval_set a
          then a\<lparr>interval_set := False, sched := (sched a)\<lparr>processedPosts := {}\<rparr>\<rparr>
          else a)"

definition run_actions :: "(string \<Rightarrow> int option) \<Rightarrow> upload_env \<Rightarrow> action list \<Rightarrow> activation \<Rightarrow> activation" where
  "run_actions parseDate u acs a = fold (step parseDate u) acs a"

definition create_calls :: "string \<Rightarrow> event list \<Rightarrow> nat" where
  "create_calls pid tr =
     length (filter (\<lambda>ev. case ev of CreatePost p txt images t \<Rightarrow> p = pid | _ \<Rightarrow> False) tr)"

section \<open>The Dashboard: loadScheduledPosts\<close>

text \<open>
  The state of the component that \<open>loadScheduledPosts\<close> touches: the list
  \<open>scheduledPosts\<close>, \<open>loading\<close>, \<open>error\<close> (written \<open>ui_error\<close>), the ref \<open>lastFetch\<close>,
  the toasts shown and the texts written with \<open>console.error\<close>.
\<close>

record dashboard =
  scheduledPosts :: "Post list"
  loading :: bool
  ui_error :: "string option"
  lastFetch :: int
  toasts :: "string list"
  console :: "string list"

definition CACHE_DURATION :: int where
  "CACHE_DURATION = 5 * 60 * 1000"

text \<open>
  The answer of the store to the list query: \<open>fetchError\<close>, or \<open>data\<close> (null is \<open>None\<close>),
  the rows of the user and handle, latest \<open>scheduled_for\<close> first. The client of the store
  does not throw: it reports every failure of a query, also one of the network, in the
  field \<open>error\<close> of its answer, as an object with a message, details, a hint and a code.
  That object is not an instance of \<open>Error\<close>, and it is the value that line 78 throws.
  The \<open>AbortController\<close> of lines 61 to 65 is given to no request, so aborting it has
  no effect and nothing in the \<open>try\<close> block is aborted.
\<close>

record store_error =
  se_message :: string
  se_details :: string
  se_hint :: string
  se_code :: string

datatype fetch_result = FetchError store_error | FetchData "row list option"

definition thrown_store_error :: "store_error \<Rightarrow> thrown" where
  "thrown_store_error err = NonError"

definition transform_row :: "(int \<Rightarrow> string) \<Rightarrow> row \<Rightarrow> Post" where
  "transform_row toISOString r =
     \<lparr>post_id = row_id r, post_text = row_text r,
      scheduledFor = toISOString (row_scheduled_for r),
      status = row_status r, error = row_error r, media = row_media r,
      bluesky_handle = Some (row_handle r)\<rparr>"

definition is_abort :: "thrown \<Rightarrow> bool" where
  "is_abort t = (case t of ErrorObj nm m \<Rightarrow> nm = ''AbortError'' | NonError \<Rightarrow> False)"

definition load_error_message :: "thrown \<Rightarrow> string" where
  "load_error_message t =
     (case t of ErrorObj nm m \<Rightarrow> m | NonError \<Rightarrow> ''Failed to load scheduled posts'')"

text \<open>Whether the call gets as far as the query.\<close>

definition load_reads :: "hook_env \<Rightarrow> bool \<Rightarrow> int \<Rightarrow> dashboard \<Rightarrow> bool" where
  "load_reads e force now d =
     (has_user e \<and> truthy (handle (auth e)) \<and> \<not> (\<not> force \<and> now - lastFetch d < CACHE_DURATION))"

text \<open>The \<open>catch\<close> clause of \<open>loadScheduledPosts\<close>, on the value \<open>t\<close> that it catches.\<close>

definition load_catch :: "thrown \<Rightarrow> dashboard \<Rightarrow> dashboard" where
  "load_catch t d =
     (if is_abort t then d
      else d\<lparr>console := console d @ [''Error loading scheduled posts:''],
             ui_error := Some (load_error_message t),
             toasts := toasts d @ [load_error_message t]\<rparr>)"

definition loadScheduledPosts :: "(int \<Rightarrow> string) \<Rightarrow> hook_env \<Rightarrow> bool \<Rightarrow> int \<Rightarrow> fetch_result \<Rightarrow> dashboard \<Rightarrow> dashboard" where
  "loadScheduledPosts toISOString e force now res d =
     (if \<not> has_user e \<or> \<not> truthy (handle (auth e)) then d\<lparr>loading := False\<rparr>
      else if \<not> force \<and> now - lastFetch d < CACHE_DURATION then d
      else
        let d1 = d\<lparr>loading := True, ui_error := None\<rparr>;
            d2 = (case res of
                    FetchData rows \<Rightarrow>
                      d1\<lparr>scheduledPosts :=
                            map (transform_row toISOString) (case rows of None \<Rightarrow> [] | Some rs \<Rightarrow> rs),
                          lastFetch := now\<rparr>
                  | FetchError fetchError \<Rightarrow> load_catch (thrown_store_error fetchError) d1)
        in d2\<lparr>loading := False\<rparr>)"

text \<open>
  What the Dashboard renders below the heading: the spinner, the error panel with its
  button Try Again, or the list. The button Refresh is there whenever the spinner is not.
  Both buttons call \<open>loadScheduledPosts(true)\<close>, which reads whatever the age of the cache.
\<close>

datatype panel = Spinner | ErrorPanel string | PostList "Post list"

definition dashboard_panel :: "dashboard \<Rightarrow> panel" where
  "dashboard_panel d =
     (if loading d then Spinner
      else case ui_error d of
             None \<Rightarrow> PostList (scheduledPosts d)
           | Some m \<Rightarrow> if truthy m then ErrorPanel m else PostList (scheduledPosts d))"

section \<open>The list view (ScheduledPosts.tsx)\<close>

text \<open>
  One rendered post: its status text, whether the edit button is there (the delete button
  always is), and whether the error line is shown.
\<close>

record card =
  card_post :: Post
  status_text :: string
  edit_button :: bool
  delete_button :: bool
  error_line :: "string option"

datatype list_view = EmptyState | Groups "(string \<times> card list) list"

definition getStatusText :: "post_status \<Rightarrow> string" where
  "getStatusText st = (case st of Failed \<Rightarrow> ''Failed'' | _ \<Rightarrow> ''Scheduled'')"

definition render_card :: "Post \<Rightarrow> card" where
  "render_card post =
     \<lparr>card_post = post, status_text = getStatusText (status post),
      edit_button = (status post = Scheduled), delete_button = True,
      error_line = (case error post of None \<Rightarrow> None | Some m \<Rightarrow> if truthy m then Some m else None)\<rparr>"

text \<open>
  The \<open>reduce\<close> that groups by date key: a new key goes to the end, as the keys of an
  object do. \<open>format(new Date(text), 'yyyy-MM-dd')\<close> throws a RangeError on an Invalid
  Date; \<open>formatKey\<close> is the format of an instant.
\<close>

fun add_to_group :: "string \<Rightarrow> Post \<Rightarrow> (string \<times> Post list) list \<Rightarrow> (string \<times> Post list) list" where
  "add_to_group k post [] = [(k, [post])]"
| "add_to_group k post ((k', ps) # gs) =
     (if k' = k then (k', ps @ [post]) # gs else (k', ps) # add_to_group k post gs)"

fun group_posts :: "(string \<Rightarrow> int option) \<Rightarrow> (int \<Rightarrow> string) \<Rightarrow> Post list \<Rightarrow> (string \<times> Post list) list \<Rightarrow> thrown + (string \<times> Post list) list" where
  "group_posts parseDate formatKey [] groups = Inr groups"
| "group_posts parseDate formatKey (post # rest) groups =
     (case parseDate (scheduledFor post) of
        None \<Rightarrow> Inl (ErrorObj ''RangeError'' ''Invalid time value'')
      | Some t \<Rightarrow> group_posts parseDate formatKey rest (add_to_group (formatKey t) post groups))"

text \<open>
  \<open>sort((a, b) => time(b) - time(a))\<close>: a stable sort, latest first. A comparison with
  an Invalid Date gives NaN, which \<open>sort\<close> reads as equal: it is given the instant 0 here.
\<close>

definition time_of :: "(string \<Rightarrow> int option) \<Rightarrow> string \<Rightarrow> int" where
  "time_of parseDate txt = (case parseDate txt of None \<Rightarrow> 0 | Some t \<Rightarrow> t)"

definition sort_latest_first :: "('a \<Rightarrow> int) \<Rightarrow> 'a list \<Rightarrow> 'a list" where
  "sort_latest_first f xs = sort_key (\<lambda>x. - f x) xs"

definition ScheduledPosts :: "(string \<Rightarrow> int option) \<Rightarrow> (int \<Rightarrow> string) \<Rightarrow> Post list \<Rightarrow> thrown + list_view" where
  "ScheduledPosts parseDate formatKey posts =
     (let unpublishedPosts = filter (\<lambda>post. status post \<noteq> Published) posts
      in if length unpublishedPosts = 0 then Inr EmptyState
         else
           (case group_posts parseDate formatKey unpublishedPosts [] of
              Inl t \<Rightarrow> Inl t
            | Inr groupedPosts \<Rightarrow>
                Inr (Groups
                  (map (\<lambda>(dateKey, ps).
                          (dateKey,
                           map render_card
                             (sort_latest_first (\<lambda>p. time_of parseDate (scheduledFor p)) ps)))
                     (sort_latest_first (\<lambda>(dateKey, ps). time_of parseDate dateKey) groupedPosts)))))"

definition shown_cards :: "list_view \<Rightarrow> card list" where
  "shown_cards v = (case v of EmptyState \<Rightarrow> [] | Groups gs \<Rightarrow> concat (map snd gs))"

section \<open>The forms\<close>

text \<open>
  What a submission does, in order. \<open>OnSave\<close> is the call of \<open>handleEditPost\<close> and
  \<open>OnPostScheduled\<close> the call of \<open>handleSchedulePost\<close> of the Dashboard, the only places
  where a post record is changed or created; \<open>PostNow\<close> stands for the uploads and
  \<open>agent.post\<close> of the branch that publishes at once.
\<close>

record new_post =
  np_text :: string
  np_scheduledFor :: string
  np_media :: "MediaFile list option"

datatype form_event =
    OnSave Post
  | OnClose
  | OnPostScheduled new_post
  | PostNow string "MediaFile list"
  | FormConsoleError thrown
  | FormToastError string
  | FormToastSuccess string

subsection \<open>EditPostModal.handleSubmit\<close>

record edit_form =
  ef_text :: string
  ef_scheduledDate :: string
  ef_scheduledTime :: string
  ef_isSubmitting :: bool

text \<open>
  \<open>scheduledFor <= new Date()\<close> is false for an Invalid Date, and \<open>toISOString\<close> then
  throws a RangeError inside the \<open>try\<close> block.
\<close>

definition edit_handleSubmit :: "(string \<Rightarrow> int option) \<Rightarrow> (int \<Rightarrow> string) \<Rightarrow> int \<Rightarrow> Post \<Rightarrow> edit_form \<Rightarrow> form_event list" where
  "edit_handleSubmit parseDate toISOString now post f =
     (if ef_isSubmitting f then []
      else
        (case parseDate (ef_scheduledDate f @ ''T'' @ ef_scheduledTime f) of
           None \<Rightarrow> [FormConsoleError (ErrorObj ''RangeError'' ''Invalid time value'')]
         | Some target \<Rightarrow>
             if target \<le> now
             then [FormConsoleError (ErrorObj ''Error'' ''Scheduled time must be in the future'')]
             else [OnSave (post\<lparr>post_text := ef_text f, scheduledFor := toISOString target\<rparr>),
                   OnClose]))"

subsection \<open>PostForm.handleSubmit\<close>

record post_form =
  pf_text :: string
  pf_isScheduling :: bool
  pf_scheduledDate :: string
  pf_scheduledTime :: string
  pf_mediaFiles :: "MediaFile list"

text \<open>
  \<open>trim\<close> is \<open>String.prototype.trim\<close>, \<open>has_agent\<close> says whether the agent of the
  AuthContext is set, and \<open>now_resp\<close> is what the branch that publishes at once throws.
\<close>

definition form_error_message :: "thrown \<Rightarrow> string" where
  "form_error_message t = (case t of ErrorObj nm m \<Rightarrow> m | NonError \<Rightarrow> ''Failed to create post'')"

definition post_handleSubmit :: "(string \<Rightarrow> int option) \<Rightarrow> (int \<Rightarrow> string) \<Rightarrow> (string \<Rightarrow> string) \<Rightarrow> int \<Rightarrow> bool \<Rightarrow> thrown option \<Rightarrow> post_form \<Rightarrow> form_event list" where
  "post_handleSubmit parseDate toISOString trim now has_agent now_resp f =
     (if \<not> has_agent then [FormToastError ''Not authenticated'']
      else if \<not> truthy (trim (pf_text f)) then [FormToastError ''Post text cannot be empty'']
      else if pf_isScheduling f \<and> truthy (pf_scheduledDate f) \<and> truthy (pf_scheduledTime f) then
        (case parseDate (pf_scheduledDate f @ ''T'' @ pf_scheduledTime f) of
           None \<Rightarrow>
             [FormConsoleError (ErrorObj ''RangeError'' ''Invalid time value''),
              FormToastError ''Invalid time value'']
         | Some target \<Rightarrow>
             if target \<le> now then [FormToastError ''Scheduled time must be in the future'']
             else [OnPostScheduled
                     \<lparr>np_text = pf_text f, np_scheduledFor = toISOString target,
                      np_media = (if length (pf_mediaFiles f) > 0 then Some (pf_mediaFiles f) else None)\<rparr>,
                   FormToastSuccess ''Post scheduled successfully''])
      else
        (case now_resp of
           None \<Rightarrow> [PostNow (pf_text f) (pf_mediaFiles f), FormToastSuccess ''Post published successfully'']
         | Some t \<Rightarrow>
             [PostNow (pf_text f) (pf_mediaFiles f), FormConsoleError t,
              FormToastError (form_error_message t)]))"

definition changes_record :: "form_event \<Rightarrow> bool" where
  "changes_record ev = (case ev of OnSave p \<Rightarrow> True | OnPostScheduled np \<Rightarrow> True | _ \<Rightarrow> False)"

section \<open>The Dashboard: the handlers that write the table\<close>

text \<open>
  \<open>handleSchedulePost\<close>, \<open>handleEditPost\<close> and \<open>handleDeletePost\<close>, on the state of the
  component and the table of the store with the catalogue \<open>sch\<close>. \<open>uuid\<close> is the value of
  \<open>crypto.randomUUID()\<close>, \<open>clock\<close> the clock of the browser, \<open>now\<close> the clock of the
  database, and \<open>ok\<close> says that the request reaches the database. A date text that cannot
  be parsed makes \<open>toISOString\<close> throw inside the \<open>try\<close> block. Every \<open>catch\<close> clause
  logs and shows a toast. The state \<open>editingPost\<close> of the modal is left out.
\<close>

definition newPost :: "string \<Rightarrow> string \<Rightarrow> new_post \<Rightarrow> Post" where
  "newPost uuid h post =
     \<lparr>post_id = uuid, post_text = np_text post, scheduledFor = np_scheduledFor post,
      status = Scheduled, error = None, media = np_media post, bluesky_handle = Some h\<rparr>"

definition toast :: "string \<Rightarrow> dashboard \<Rightarrow> dashboard" where
  "toast m d = d\<lparr>toasts := toasts d @ [m]\<rparr>"

definition caught :: "string \<Rightarrow> string \<Rightarrow> dashboard \<Rightarrow> dashboard" where
  "caught logged m d = toast m (d\<lparr>console := console d @ [logged]\<rparr>)"

definition handleSchedulePost :: "(string \<Rightarrow> int option) \<Rightarrow> hook_env \<Rightarrow> schema \<Rightarrow> string \<Rightarrow> int \<Rightarrow> bool \<Rightarrow> new_post \<Rightarrow> dashboard \<times> row list \<Rightarrow> dashboard \<times> row list" where
  "handleSchedulePost parseDate e sch uuid now ok post x =
     (case x of (d, rows) \<Rightarrow>
        (case user_id e of
           None \<Rightarrow> (toast ''Please login to schedule posts'' d, rows)
         | Some uid \<Rightarrow>
             if \<not> truthy uid \<or> \<not> truthy (handle (auth e))
             then (toast ''Please login to schedule posts'' d, rows)
             else
               let created = newPost uuid (handle (auth e)) post;
                   failed = (caught ''Error scheduling post:'' ''Failed to schedule post'' d, rows)
               in (case parseDate (scheduledFor created) of
                     None \<Rightarrow> failed
                   | Some t \<Rightarrow>
                       if \<not> ok then failed
                       else
                         (case sql_insert sch
                                 ([''id'', ''user_id'', ''text'', ''scheduled_for'', ''status''] @
                                  (case media created of None \<Rightarrow> [] | Some ms \<Rightarrow> [''media'']) @
                                  [''bluesky_handle''])
                                 \<lparr>row_id = post_id created, row_user_id = uid,
                                  row_handle = handle (auth e), row_text = post_text created,
                                  row_scheduled_for = t, row_status = status created,
                                  row_error = None, row_media = media created,
                                  row_created_at = now, row_updated_at = now\<rparr>
                                 rows of
                            Inl insertError \<Rightarrow> failed
                          | Inr rows' \<Rightarrow>
                              (toast ''Post scheduled successfully''
                                 (d\<lparr>scheduledPosts := created # scheduledPosts d\<rparr>),
                               rows')))))"

definition handleEditPost :: "(string \<Rightarrow> int option) \<Rightarrow> hook_env \<Rightarrow> schema \<Rightarrow> int \<Rightarrow> int \<Rightarrow> bool \<Rightarrow> Post \<Rightarrow> dashboard \<times> row list \<Rightarrow> dashboard \<times> row list" where
  "handleEditPost parseDate e sch clock now ok post x =
     (case x of (d, rows) \<Rightarrow>
        (case user_id e of
           None \<Rightarrow> (d, rows)
         | Some uid \<Rightarrow>
             if \<not> truthy uid \<or> \<not> truthy (handle (auth e)) then (d, rows)
             else
               let failed = (caught ''Error updating post:'' ''Failed to update post'' d, rows)
               in (case parseDate (scheduledFor post) of
                     None \<Rightarrow> failed
                   | Some t \<Rightarrow>
                       if \<not> ok then failed
                       else
                         (case sql_update sch now
                                 [''text'', ''scheduled_for'', ''updated_at'', ''id'', ''user_id'',
                                  ''bluesky_handle'']
                                 (row_matches (post_id post) uid (handle (auth e)))
                                 (\<lambda>r. r\<lparr>row_text := post_text post, row_scheduled_for := t,
                                        row_updated_at := clock\<rparr>)
                                 rows of
                            Inl updateError \<Rightarrow> failed
                          | Inr rows' \<Rightarrow>
                              (toast ''Post updated successfully''
                                 (d\<lparr>scheduledPosts :=
                                      map (\<lambda>p. if post_id p = post_id post then post else p)
                                        (scheduledPosts d)\<rparr>),
                               rows')))))"

definition handleDeletePost :: "hook_env \<Rightarrow> schema \<Rightarrow> bool \<Rightarrow> string \<Rightarrow> dashboard \<times> row list \<Rightarrow> dashboard \<times> row list" where
  "handleDeletePost e sch ok pid x =
     (case x of (d, rows) \<Rightarrow>
        (case user_id e of
           None \<Rightarrow> (d, rows)
         | Some uid \<Rightarrow>
             if \<not> truthy uid \<or> \<not> truthy (handle (auth e)) then (d, rows)
             else
               let failed = (caught ''Error deleting post:'' ''Failed to delete post'' d, rows)
               in if \<not> ok then failed
                  else
                    (case sql_delete sch [''id'', ''user_id'', ''bluesky_handle'']
                            (row_matches pid uid (handle (auth e))) rows of
                       Inl deleteError \<Rightarrow> failed
                     | Inr rows' \<Rightarrow>
                         (toast ''Post deleted successfully''
                            (d\<lparr>scheduledPosts := filter (\<lambda>p. post_id p \<noteq> pid) (scheduledPosts d)\<rparr>),
                          rows'))))"

subsection \<open>A post carries an error text only when its status is failed\<close>

text \<open>
  The records that the application builds keep this: a new post has no error, an edit
  changes text and time only, and the scheduler sets an error together with the status
  failed.
\<close>

definition well_formed :: "Post \<Rightarrow> bool" where
  "well_formed p = (error p = None \<or> status p = Failed)"

definition row_ok :: "row \<Rightarrow> bool" where
  "row_ok r = (row_error r = None \<or> row_status r = Failed)"

definition consistent :: "Post list \<Rightarrow> row list \<Rightarrow> bool" where
  "consistent ps rows = (list_all well_formed ps \<and> list_all row_ok rows)"

section \<open>Observations on a trace\<close>

text \<open>
  The posts handed to \<open>onPostUpdate\<close>, the writes sent to the store, and the events that
  one attempt adds to the trace.
\<close>

fun reported :: "event list \<Rightarrow> Post list" where
  "reported [] = []"
| "reported (OnPostUpdate p # tr) = p # reported tr"
| "reported (ev # tr) = reported tr"

fun written :: "event list \<Rightarrow> (string \<times> string \<times> string \<times> payload) list" where
  "written [] = []"
| "written (StoreWrite pid uid h pl # tr) = (pid, uid, h, pl) # written tr"
| "written (ev # tr) = written tr"

definition attempt_trace :: "upload_env \<Rightarrow> hook_env \<Rightarrow> net \<Rightarrow> Post \<Rightarrow> sched_state \<Rightarrow> event list" where
  "attempt_trace u e n post s = drop (length (trace s)) (trace (publishPost u e n post s))"

text \<open>
  The calls that go over the network, and among them those of the publication proper,
  which follow the status check: reading the credentials and the calls of the Publish
  Client.
\<close>

definition is_network :: "event \<Rightarrow> bool" where
  "is_network ev =
     (case ev of
        StatusRead pid uid h \<Rightarrow> True
      | CredentialsRead uid \<Rightarrow> True
      | Login h pw \<Rightarrow> True
      | UploadBlob m \<Rightarrow> True
      | CreatePost pid txt images t \<Rightarrow> True
      | StoreWrite pid uid h pl \<Rightarrow> True
      | _ \<Rightarrow> False)"

definition is_publish_call :: "event \<Rightarrow> bool" where
  "is_publish_call ev =
     (case ev of
        CredentialsRead uid \<Rightarrow> True
      | Login h pw \<Rightarrow> True
      | UploadBlob m \<Rightarrow> True
      | CreatePost pid txt images t \<Rightarrow> True
      | _ \<Rightarrow> False)"

text \<open>No event of the kind \<open>P\<close> comes before the identity \<open>pid\<close> is added to the set.\<close>

fun marked_before :: "(event \<Rightarrow> bool) \<Rightarrow> string \<Rightarrow> event list \<Rightarrow> bool" where
  "marked_before P pid [] = True"
| "marked_before P pid (ev # tr) =
     (if ev = MarkProcessed pid then True
      else if P ev then False
      else marked_before P pid tr)"

text \<open>
  The attempt gets past the guard, the in-flight check and the status check; and the
  value that the publication then throws, \<open>None\<close> when \<open>agent.post\<close> returns.
\<close>

definition attempt_starts :: "hook_env \<Rightarrow> net \<Rightarrow> Post \<Rightarrow> sched_state \<Rightarrow> bool" where
  "attempt_starts e n post s =
     (isAuthenticated (auth e) \<and> truthy (handle (auth e)) \<and> post_id post \<notin> processedPosts s \<and>
      store_read_ok n \<and> missing_columns (catalogue s) status_columns = None \<and>
      select_status (post_id post) (user_id e) (handle (auth e)) (store s) = Some Scheduled)"

definition thrown_by_attempt :: "upload_env \<Rightarrow> hook_env \<Rightarrow> net \<Rightarrow> Post \<Rightarrow> thrown option" where
  "thrown_by_attempt u e n post =
     fst (publish_body u e n post
            \<lparr>processedPosts = {}, mirror = [], store = [], catalogue = empty_schema, trace = []\<rparr>)"

section \<open>Example inputs\<close>

definition ex_env :: hook_env where
  "ex_env = \<lparr>auth = \<lparr>handle = ''alice'', password = ''pw'', isAuthenticated = True\<rparr>,
            user_id = Some ''u1''\<rparr>"

definition ex_env_no_auth :: hook_env where
  "ex_env_no_auth = ex_env\<lparr>auth := (auth ex_env)\<lparr>isAuthenticated := False\<rparr>\<rparr>"

definition ex_media :: MediaFile where
  "ex_media = \<lparr>mimeType = ''image/png'', media_type = Image, base64 = ''data:image/png;base64,AAAA''\<rparr>"

definition ex_post :: Post where
  "ex_post = \<lparr>post_id = ''C'', post_text = ''hello'', scheduledFor = ''t50'', status = Scheduled,
             error = None, media = Some [ex_media], bluesky_handle = Some ''alice''\<rparr>"

definition ex_post_with_error :: Post where
  "ex_post_with_error = ex_post\<lparr>error := Some ''earlier failure''\<rparr>"

definition ex_row :: "post_status \<Rightarrow> row" where
  "ex_row st = \<lparr>row_id = ''C'', row_user_id = ''u1'', row_handle = ''alice'', row_text = ''hello'',
               row_scheduled_for = 50, row_status = st, row_error = None,
               row_media = Some [ex_media], row_created_at = 10, row_updated_at = 10\<rparr>"

definition ex_state :: "post_status \<Rightarrow> sched_state" where
  "ex_state st = \<lparr>processedPosts = {}, mirror = [ex_post], store = [ex_row st],
                 catalogue = migrated_schema, trace = []\<rparr>"

definition ex_net :: net where
  "ex_net = \<lparr>store_read_ok = True, cred_error = False, cred_data = Some (''alice'', ''pw''),
            login_resp = None, upload_resp = (\<lambda>i. UploadAnswers True (Some ''blob'')),
            settle_order = [0], post_resp = None, post_clock = 100,
            store_write_ok = True, save_clock = 101, store_clock = 102\<rparr>"




definition ex_uploads :: upload_env where
  "ex_uploads = \<lparr>decodes = (\<lambda>m. None)\<rparr>"

definition ex_parseDate :: "string \<Rightarrow> int option" where
  "ex_parseDate txt = (if txt = ''t50'' then Some 50 else if txt = ''t900'' then Some 900 else None)"

definition ex_toISOString :: "int \<Rightarrow> string" where
  "ex_toISOString t = (if t = 50 then ''t50'' else if t = 900 then ''t900'' else ''t'')"

definition ex_formatKey :: "int \<Rightarrow> string" where
  "ex_formatKey t = (if t < 100 then ''day0'' else ''day1'')"

text \<open>
  Two timer callbacks of one activation on the post \<open>C\<close>, due since the instant 50: the
  initial check at 100 and the interval at 30100, while the status read of the first is
  still on its way. Then the two attempts are answered in turn.
\<close>

definition ex_race :: "action list" where
  "ex_race =
     [TimerFires 30100 (\<lambda>i. ex_net),
      Answer 0, Answer 1, Answer 0, Answer 1, Answer 0, Answer 1, Answer 0, Answer 1]"

definition ex_activation :: activation where
  "ex_activation = effect_setup ex_parseDate ex_env [ex_post] 100 (\<lambda>i. ex_net) (ex_state Scheduled)"

definition ex_dashboard :: dashboard where
  "ex_dashboard = \<lparr>scheduledPosts = [ex_post], loading = False, ui_error = None, lastFetch = 0,
                  toasts = [], console = []\<rparr>"

definition ex_store_error :: store_error where
  "ex_store_error = \<lparr>se_message = ''TypeError: Failed to fetch'', se_details = [], se_hint = [],
                      se_code = []\<rparr>"

definition ex_edit_form :: edit_form where
  "ex_edit_form = \<lparr>ef_text = ''hello again'', ef_scheduledDate = ''t'', ef_scheduledTime = ''50'',
                  ef_isSubmitting = False\<rparr>"

definition ex_post_form :: post_form where
  "ex_post_form = \<lparr>pf_text = ''hello'', pf_isScheduling = True, pf_scheduledDate = ''t'',
                  pf_scheduledTime = ''50'', pf_mediaFiles = []\<rparr>"

definition ex_published_post :: Post where
  "ex_published_post = ex_post\<lparr>post_id := ''D'', status := Published\<rparr>"

definition ex_parseForm :: "string \<Rightarrow> int option" where
  "ex_parseForm txt = (if txt = ''tT50'' then Some 50 else None)"

section \<open>Lemmas on the schema\<close>

lemma migrated_runs: "run_script migration_script empty_schema = Inr migrated_schema"
  by code_simp

lemma migrated_triggers:
  "triggers_of migrated_schema ''scheduled_posts'' = [TrgClearMedia, TrgUpdateUpdatedAt]"
  by code_simp

lemma migrated_table: "has_table migrated_schema ''scheduled_posts''"
  by code_simp

lemma migrated_job:
  "map_of (sch_jobs migrated_schema) ''delete-old-posts'' =
     Some (\<lparr>c_minute = Some 0, c_hour = Some 0, c_dom = None, c_month = None, c_dow = None\<rparr>,
           ''delete_old_posts'')"
  by code_simp

lemma migrated_function:
  "map_of (sch_functions migrated_schema) ''delete_old_posts'' = Some FnDeleteOldPosts"
  by code_simp

lemma migrated_posts_table:
  "map_of (sch_tables migrated_schema) ''scheduled_posts'' =
     Some [''id'', ''user_id'', ''bluesky_handle'', ''text'', ''scheduled_for'', ''status'', ''error'',
           ''media'', ''created_at'', ''updated_at'']"
  by code_simp

lemma updated_posts_table:
  "map_of (sch_tables updated_schema) ''scheduled_posts'' =
     Some [''id'', ''user_id'', ''text'', ''scheduled_for'', ''status'', ''error'', ''media'',
           ''created_at'', ''updated_at'']"
  by code_simp

lemma migrated_columns:
  "missing_columns migrated_schema status_columns = None"
  "missing_columns migrated_schema (payload_columns pl @ [''id'', ''user_id'', ''bluesky_handle'']) = None"
  unfolding missing_columns_def migrated_posts_table status_columns_def payload_columns_def
  by (simp_all split: option.splits)

lemma updated_columns:
  "missing_columns updated_schema status_columns = Some (UndefinedColumn ''bluesky_handle'')"
  unfolding missing_columns_def updated_posts_table status_columns_def
  by simp

lemma migrated_fire:
  assumes "row_status old = Scheduled" and "row_status new = Published"
  shows "fire_triggers migrated_schema ''scheduled_posts'' now old new =
           new\<lparr>row_media := None, row_updated_at := now\<rparr>"
  unfolding fire_triggers_def migrated_triggers using assms
  by (simp add: trigger_fn_def clear_media_after_publish_def update_updated_at_column_def)

subsection \<open>The triggers leave status and error as they are\<close>

lemma trigger_fn_keeps:
  "row_status (trigger_fn b now old new) = row_status new"
  "row_error (trigger_fn b now old new) = row_error new"
  by (cases b; simp add: trigger_fn_def update_updated_at_column_def clear_media_after_publish_def)+

lemma fire_triggers_keeps:
  "row_status (fire_triggers sch t now old new) = row_status new"
  "row_error (fire_triggers sch t now old new) = row_error new"
proof -
  have "row_status (foldl (\<lambda>nw b. trigger_fn b now old nw) new bs) = row_status new \<and>
        row_error (foldl (\<lambda>nw b. trigger_fn b now old nw) new bs) = row_error new" for bs
    by (induction bs arbitrary: new) (simp_all add: trigger_fn_keeps)
  then show "row_status (fire_triggers sch t now old new) = row_status new"
    and "row_error (fire_triggers sch t now old new) = row_error new"
    unfolding fire_triggers_def by simp_all
qed

lemma row_ok_fire: "row_ok (fire_triggers sch t now old new) = row_ok new"
  by (simp add: row_ok_def fire_triggers_keeps)

lemma sql_update_ok:
  assumes "sql_update sch now cols cond assign rows = Inr rows'"
    and "list_all row_ok rows"
    and "\<And>r. r \<in> set rows \<Longrightarrow> cond r \<Longrightarrow> row_ok (assign r)"
  shows "list_all row_ok rows'"
proof -
  have "rows' = map (\<lambda>r. if cond r then fire_triggers sch ''scheduled_posts'' now r (assign r) else r) rows"
    using assms(1) unfolding sql_update_def by (auto split: option.splits)
  then show ?thesis using assms(2,3) by (auto simp: list_all_iff row_ok_fire)
qed

lemma sql_insert_ok:
  assumes "sql_insert sch cols r rows = Inr rows'" and "list_all row_ok rows" and "row_ok r"
  shows "list_all row_ok rows'"
  using assms unfolding sql_insert_def by (auto split: option.splits if_splits)

lemma sql_delete_ok:
  assumes "sql_delete sch cols cond rows = Inr rows'" and "list_all row_ok rows"
  shows "list_all row_ok rows'"
  using assms unfolding sql_delete_def by (auto simp: list_all_iff split: option.splits)

section \<open>Lemmas on the scheduler\<close>

subsection \<open>The two descriptions of an attempt agree\<close>

lemma upload_none [simp]: "upload_calls u n [] = []" "upload_answers u n [] = []"
  by (simp_all add: upload_calls_def upload_answers_def upload_runs_def arrival_def)

lemma resume_next_None [simp]: "resume_next u e n post (None, s) = (None, s)"
  by (simp add: resume_next_def)

lemma resume_next_Some [simp]:
  "resume_next u e n post (Some p, s) = resume_publish u e n post p s"
  by (simp add: resume_next_def)

lemma resume_save_then:
  "resume_next u e n post (save_then e n p k s) = (None, after_save k (savePostToSupabase e n p s))"
  by (auto simp: save_then_def start_save_def savePostToSupabase_def Let_def resume_publish_def
        split: option.splits)

lemma resume_catch:
  "resume_next u e n post (catch_clause e n post t s) = (None, publish_failed e n post t s)"
  unfolding catch_clause_def publish_failed_def Let_def
  by (simp only: resume_save_then after_save_def save_cont.case)

lemma funpow_six: "(f ^^ 6) x = f (f (f (f (f (f x)))))"
  by (simp add: eval_nat_numeral)

text \<open>
  Answering the awaits of an attempt one after the other, with nothing in between, ends
  within six answers in the state that \<open>publishPost\<close> gives.
\<close>

lemma run_alone_publishPost: "run_alone u e n post s = (None, publishPost u e n post s)"
proof (cases "\<not> isAuthenticated (auth e) \<or> \<not> truthy (handle (auth e))")
  case True
  then show ?thesis
    unfolding run_alone_def start_publish_def publishPost_def Let_def funpow_six
    by (simp add: resume_save_then after_save_def)
next
  case False
  then show ?thesis
    unfolding run_alone_def start_publish_def publishPost_def funpow_six
    by (auto simp: Let_def resume_publish_def publish_body_def call_post_def resume_catch
          resume_save_then publish_succeeded_def after_save_def emit_def
          split: option.splits sum.splits prod.splits)
qed

subsection \<open>What each part of an attempt adds to the trace\<close>

lemma emit_fields [simp]:
  "processedPosts (emit ev s) = processedPosts s"
  "mirror (emit ev s) = mirror s"
  "store (emit ev s) = store s"
  "catalogue (emit ev s) = catalogue s"
  by (simp_all add: emit_def)

lemma onPostUpdate_fields [simp]:
  "store (onPostUpdate p s) = store s"
  "catalogue (onPostUpdate p s) = catalogue s"
  "processedPosts (onPostUpdate p s) = processedPosts s"
  by (simp_all add: onPostUpdate_def)

lemma reported_append: "reported (xs @ ys) = reported xs @ reported ys"
  by (induction xs rule: reported.induct) simp_all

lemma written_append: "written (xs @ ys) = written xs @ written ys"
  by (induction xs rule: written.induct) simp_all

lemma reported_concat: "(\<And>xs. xs \<in> set xss \<Longrightarrow> reported xs = []) \<Longrightarrow> reported (concat xss) = []"
  by (induction xss) (simp_all add: reported_append)

lemma written_concat: "(\<And>xs. xs \<in> set xss \<Longrightarrow> written xs = []) \<Longrightarrow> written (concat xss) = []"
  by (induction xss) (simp_all add: written_append)

lemma upload_run_quiet:
  "reported (before_await (uploadImageBlob u r m)) = []"
  "reported (after_await (uploadImageBlob u r m)) = []"
  "written (before_await (uploadImageBlob u r m)) = []"
  "written (after_await (uploadImageBlob u r m)) = []"
  by (simp_all add: uploadImageBlob_def Let_def split: option.splits upload_outcome.splits)

lemma arrival_bound: "i \<in> set (arrival n k) \<Longrightarrow> i < k"
  by (auto simp: arrival_def)

lemma upload_run_nth:
  "i < length ms \<Longrightarrow> upload_runs u n ms ! i = uploadImageBlob u (upload_resp n i) (ms ! i)"
  by (simp add: upload_runs_def)

lemma reported_uploads:
  "reported (upload_calls u n ms) = []" "reported (upload_answers u n ms) = []"
proof -
  show "reported (upload_calls u n ms) = []"
    unfolding upload_calls_def upload_runs_def
    by (rule reported_concat) (auto simp: upload_run_quiet)
  show "reported (upload_answers u n ms) = []"
    unfolding upload_answers_def
    by (rule reported_concat) (auto simp: upload_run_quiet upload_run_nth dest: arrival_bound)
qed

lemma written_uploads:
  "written (upload_calls u n ms) = []" "written (upload_answers u n ms) = []"
proof -
  show "written (upload_calls u n ms) = []"
    unfolding upload_calls_def upload_runs_def
    by (rule written_concat) (auto simp: upload_run_quiet)
  show "written (upload_answers u n ms) = []"
    unfolding upload_answers_def
    by (rule written_concat) (auto simp: upload_run_quiet upload_run_nth dest: arrival_bound)
qed

lemma body_thrown: "fst (publish_body u e n post s) = thrown_by_attempt u e n post"
  unfolding thrown_by_attempt_def publish_body_def
  by (simp add: Let_def split: option.splits prod.splits sum.splits)

lemma body_state:
  "processedPosts (snd (publish_body u e n post s)) = processedPosts s"
  "mirror (snd (publish_body u e n post s)) = mirror s"
  "store (snd (publish_body u e n post s)) = store s"
  "catalogue (snd (publish_body u e n post s)) = catalogue s"
  "reported (trace (snd (publish_body u e n post s))) = reported (trace s)"
  "written (trace (snd (publish_body u e n post s))) = written (trace s)"
  unfolding publish_body_def
  by (simp_all add: Let_def emit_def reported_append written_append reported_uploads
        written_uploads split: option.splits prod.splits sum.splits)

lemma body_prefix: "prefix (trace s) (trace (snd (publish_body u e n post s)))"
  unfolding publish_body_def
  by (simp add: Let_def emit_def split: option.splits prod.splits sum.splits)


lemma save_state:
  "reported (trace (savePostToSupabase e n p s)) = reported (trace s)"
  "mirror (savePostToSupabase e n p s) = mirror s"
  "processedPosts (savePostToSupabase e n p s) = processedPosts s"
  unfolding savePostToSupabase_def save_answered_def
  by (simp_all add: Let_def emit_def reported_append split: option.splits sum.splits)

lemma save_written:
  "has_user e \<Longrightarrow> truthy (handle (auth e)) \<Longrightarrow> user_id e = Some uid \<Longrightarrow>
   written (trace (savePostToSupabase e n p s)) =
     written (trace s) @ [(post_id p, uid, handle (auth e), save_payload (save_clock n) p)]"
  unfolding savePostToSupabase_def save_answered_def has_user_def
  by (simp add: Let_def emit_def written_append split: option.splits sum.splits)

lemma save_prefix: "prefix (trace s) (trace (savePostToSupabase e n p s))"
  unfolding savePostToSupabase_def save_answered_def
  by (simp add: Let_def emit_def split: option.splits sum.splits)

lemma save_no_call:
  "trace (savePostToSupabase e n p s) = trace s @ xs \<Longrightarrow> \<not> list_ex is_publish_call xs"
  unfolding savePostToSupabase_def save_answered_def
  by (auto simp: Let_def emit_def is_publish_call_def split: option.splits if_splits sum.splits)



lemma succeeded_prefix: "prefix (trace s) (trace (publish_succeeded e n post s))"
proof -
  let ?up = "post\<lparr>status := Published, media := None\<rparr>"
  have "prefix (trace s) (trace (onPostUpdate ?up s))"
    by (simp add: onPostUpdate_def emit_def)
  also have "prefix \<dots> (trace (savePostToSupabase e n ?up (onPostUpdate ?up s)))"
    by (rule save_prefix)
  finally show ?thesis
    unfolding publish_succeeded_def Let_def by (simp add: emit_def)
qed

lemma failed_prefix: "prefix (trace s) (trace (publish_failed e n post t s))"
proof -
  let ?up = "post\<lparr>status := Failed, error := Some (error_message t)\<rparr>"
  let ?s1 = "onPostUpdate ?up (emit (ConsoleError ''Failed to publish post:'') s)"
  have "prefix (trace s) (trace ?s1)"
    by (simp add: onPostUpdate_def emit_def)
  also have "prefix \<dots> (trace (savePostToSupabase e n ?up ?s1))"
    by (rule save_prefix)
  finally show ?thesis
    unfolding publish_failed_def Let_def by (simp add: emit_def)
qed

subsection \<open>The three ways an attempt can go\<close>

text \<open>An attempt that does not get past the in-flight check or the status check.\<close>

lemma not_started:
  assumes "isAuthenticated (auth e)" and "truthy (handle (auth e))"
    and "\<not> attempt_starts e n post s"
  shows "publishPost u e n post s =
          (if post_id post \<in> processedPosts s then s
           else emit (StatusRead (post_id post) (user_id e) (handle (auth e))) s)"
  using assms unfolding publishPost_def attempt_starts_def
  by (auto simp: Let_def)

text \<open>An attempt that gets past them goes on to the publication, then to one of its two ends.\<close>

lemma started_cases:
  assumes "attempt_starts e n post s"
  shows "\<exists>s3. store s3 = store s \<and> catalogue s3 = catalogue s \<and> mirror s3 = mirror s \<and>
           reported (trace s3) = reported (trace s) \<and> written (trace s3) = written (trace s) \<and>
           prefix (trace s @ [StatusRead (post_id post) (user_id e) (handle (auth e)),
                              MarkProcessed (post_id post)]) (trace s3) \<and>
           publishPost u e n post s =
             (case thrown_by_attempt u e n post of
                None \<Rightarrow> publish_succeeded e n post s3
              | Some t \<Rightarrow> publish_failed e n post t s3)"
proof -
  let ?s2 = "emit (MarkProcessed (post_id post))
               ((emit (StatusRead (post_id post) (user_id e) (handle (auth e))) s)
                  \<lparr>processedPosts := insert (post_id post) (processedPosts s)\<rparr>)"
  obtain r s3 where b: "publish_body u e n post ?s2 = (r, s3)"
    by (cases "publish_body u e n post ?s2")
  have r: "r = thrown_by_attempt u e n post"
    using body_thrown[of u e n post ?s2] b by simp
  have s3: "store s3 = store s" "catalogue s3 = catalogue s" "mirror s3 = mirror s"
    "reported (trace s3) = reported (trace s)" "written (trace s3) = written (trace s)"
    using body_state[of u e n post ?s2] b
    by (simp_all add: emit_def reported_append written_append)
  have "trace ?s2 = trace s @ [StatusRead (post_id post) (user_id e) (handle (auth e)),
                               MarkProcessed (post_id post)]"
    by (simp add: emit_def)
  then have p: "prefix (trace s @ [StatusRead (post_id post) (user_id e) (handle (auth e)),
                                   MarkProcessed (post_id post)]) (trace s3)"
    using body_prefix[of ?s2 u e n post] b by simp
  have "publishPost u e n post s =
          (case r of None \<Rightarrow> publish_succeeded e n post s3
                   | Some t \<Rightarrow> publish_failed e n post t s3)"
    using assms b unfolding publishPost_def attempt_starts_def
    by (cases r) (simp_all add: Let_def)
  with r s3 p show ?thesis by blast
qed

lemma started_trace:
  assumes "attempt_starts e n post s"
  shows "prefix (trace s @ [StatusRead (post_id post) (user_id e) (handle (auth e)),
                            MarkProcessed (post_id post)])
           (trace (publishPost u e n post s))"
proof -
  obtain s3 where p: "prefix (trace s @ [StatusRead (post_id post) (user_id e) (handle (auth e)),
                                         MarkProcessed (post_id post)]) (trace s3)"
    and pp: "publishPost u e n post s =
             (case thrown_by_attempt u e n post of
                None \<Rightarrow> publish_succeeded e n post s3
              | Some t \<Rightarrow> publish_failed e n post t s3)"
    using started_cases[OF assms, of u] by blast
  have "prefix (trace s3) (trace (publishPost u e n post s))"
    unfolding pp using succeeded_prefix[of s3 e n post] failed_prefix[of s3 e n post]
    by (cases "thrown_by_attempt u e n post") simp_all
  with p show ?thesis by (metis prefix_order.trans)
qed

lemma success_outcome:
  assumes "attempt_starts e n post s" and "thrown_by_attempt u e n post = None"
  shows "reported (trace (publishPost u e n post s)) =
           reported (trace s) @ [post\<lparr>status := Published, media := None\<rparr>]"
    and "mirror (publishPost u e n post s) =
           map (\<lambda>p. if post_id p = post_id post then post\<lparr>status := Published, media := None\<rparr> else p)
             (mirror s)"
    and "has_user e \<Longrightarrow> user_id e = Some uid \<Longrightarrow>
           written (trace (publishPost u e n post s)) =
             written (trace s) @
               [(post_id post, uid, handle (auth e),
                 save_payload (save_clock n) (post\<lparr>status := Published, media := None\<rparr>))]"
proof -
  obtain s3 where s3: "mirror s3 = mirror s" "reported (trace s3) = reported (trace s)"
      "written (trace s3) = written (trace s)"
    and pp: "publishPost u e n post s = publish_succeeded e n post s3"
    using started_cases[OF assms(1), of u] assms(2) by auto
  have h: "truthy (handle (auth e))" using assms(1) by (simp add: attempt_starts_def)
  show "reported (trace (publishPost u e n post s)) =
           reported (trace s) @ [post\<lparr>status := Published, media := None\<rparr>]"
    unfolding pp publish_succeeded_def Let_def using s3
    by (simp add: emit_def reported_append save_state onPostUpdate_def)
  show "mirror (publishPost u e n post s) =
           map (\<lambda>p. if post_id p = post_id post then post\<lparr>status := Published, media := None\<rparr> else p)
             (mirror s)"
    unfolding pp publish_succeeded_def Let_def using s3
    by (simp add: save_state onPostUpdate_def)
  show "written (trace (publishPost u e n post s)) =
             written (trace s) @
               [(post_id post, uid, handle (auth e),
                 save_payload (save_clock n) (post\<lparr>status := Published, media := None\<rparr>))]"
    if "has_user e" "user_id e = Some uid"
    unfolding pp publish_succeeded_def Let_def using s3 that h
    by (simp add: emit_def written_append save_written onPostUpdate_def)
qed

lemma failure_outcome:
  assumes "attempt_starts e n post s" and "thrown_by_attempt u e n post = Some t"
  shows "reported (trace (publishPost u e n post s)) =
           reported (trace s) @ [post\<lparr>status := Failed, error := Some (error_message t)\<rparr>]"
    and "mirror (publishPost u e n post s) =
           map (\<lambda>p. if post_id p = post_id post
                     then post\<lparr>status := Failed, error := Some (error_message t)\<rparr> else p)
             (mirror s)"
    and "has_user e \<Longrightarrow> user_id e = Some uid \<Longrightarrow>
           written (trace (publishPost u e n post s)) =
             written (trace s) @
               [(post_id post, uid, handle (auth e),
                 save_payload (save_clock n)
                   (post\<lparr>status := Failed, error := Some (error_message t)\<rparr>))]"
proof -
  obtain s3 where s3: "mirror s3 = mirror s" "reported (trace s3) = reported (trace s)"
      "written (trace s3) = written (trace s)"
    and pp: "publishPost u e n post s = publish_failed e n post t s3"
    using started_cases[OF assms(1), of u] assms(2) by auto
  have h: "truthy (handle (auth e))" using assms(1) by (simp add: attempt_starts_def)
  show "reported (trace (publishPost u e n post s)) =
           reported (trace s) @ [post\<lparr>status := Failed, error := Some (error_message t)\<rparr>]"
    unfolding pp publish_failed_def Let_def using s3
    by (simp add: emit_def reported_append save_state onPostUpdate_def)
  show "mirror (publishPost u e n post s) =
           map (\<lambda>p. if post_id p = post_id post
                     then post\<lparr>status := Failed, error := Some (error_message t)\<rparr> else p)
             (mirror s)"
    unfolding pp publish_failed_def Let_def using s3
    by (simp add: save_state onPostUpdate_def)
  show "written (trace (publishPost u e n post s)) =
             written (trace s) @
               [(post_id post, uid, handle (auth e),
                 save_payload (save_clock n)
                   (post\<lparr>status := Failed, error := Some (error_message t)\<rparr>))]"
    if "has_user e" "user_id e = Some uid"
    unfolding pp publish_failed_def Let_def using s3 that h
    by (simp add: emit_def written_append save_written onPostUpdate_def)
qed

subsection \<open>The events of one attempt\<close>

lemma publish_prefix: "prefix (trace s) (trace (publishPost u e n post s))"
proof (cases "\<not> isAuthenticated (auth e) \<or> \<not> truthy (handle (auth e))")
  case True
  let ?up = "post\<lparr>status := Failed, error := Some ''Not authenticated with Bluesky''\<rparr>"
  have "prefix (trace s) (trace (onPostUpdate ?up s))"
    by (simp add: onPostUpdate_def emit_def)
  also have "prefix \<dots> (trace (savePostToSupabase e n ?up (onPostUpdate ?up s)))"
    by (rule save_prefix)
  finally show ?thesis using True unfolding publishPost_def by (simp add: Let_def)
next
  case auth: False
  show ?thesis
  proof (cases "attempt_starts e n post s")
    case True
    have "prefix (trace s) (trace s @ [StatusRead (post_id post) (user_id e) (handle (auth e)),
                                       MarkProcessed (post_id post)])"
      by simp
    then show ?thesis using started_trace[OF True, of u] by (metis prefix_order.trans)
  next
    case False
    then show ?thesis using auth not_started[of e n post s u] by (simp add: emit_def)
  qed
qed

lemma trace_split: "trace (publishPost u e n post s) = trace s @ attempt_trace u e n post s"
  using publish_prefix[of s u e n post] unfolding attempt_trace_def by (auto elim!: prefixE)

lemma attempt_reported:
  "reported (trace (publishPost u e n post s)) = reported (trace s) @ xs \<Longrightarrow>
   reported (attempt_trace u e n post s) = xs"
  by (simp add: trace_split reported_append)

lemma not_started_trace:
  assumes "isAuthenticated (auth e)" and "truthy (handle (auth e))"
    and "\<not> attempt_starts e n post s"
  shows "attempt_trace u e n post s =
          (if post_id post \<in> processedPosts s then []
           else [StatusRead (post_id post) (user_id e) (handle (auth e))])"
  unfolding attempt_trace_def not_started[OF assms] by (simp add: emit_def)

lemma marked_before_no_call: "\<not> list_ex P xs \<Longrightarrow> marked_before P pid xs"
  by (induction xs) auto

text \<open>
  The posts that an attempt reports, and the list of the Dashboard after it, in each of
  its cases.
\<close>

lemma publish_reported:
  "reported (attempt_trace u e n post s) =
     (if \<not> isAuthenticated (auth e) \<or> \<not> truthy (handle (auth e))
      then [post\<lparr>status := Failed, error := Some ''Not authenticated with Bluesky''\<rparr>]
      else if \<not> attempt_starts e n post s then []
      else (case thrown_by_attempt u e n post of
              None \<Rightarrow> [post\<lparr>status := Published, media := None\<rparr>]
            | Some t \<Rightarrow> [post\<lparr>status := Failed, error := Some (error_message t)\<rparr>]))"
proof (cases "\<not> isAuthenticated (auth e) \<or> \<not> truthy (handle (auth e))")
  case True
  let ?up = "post\<lparr>status := Failed, error := Some ''Not authenticated with Bluesky''\<rparr>"
  have "reported (trace (publishPost u e n post s)) = reported (trace s) @ [?up]"
    using True unfolding publishPost_def
    by (simp add: Let_def save_state onPostUpdate_def emit_def reported_append)
  then show ?thesis using True attempt_reported by simp
next
  case auth: False
  show ?thesis
  proof (cases "attempt_starts e n post s")
    case False
    then show ?thesis using auth not_started_trace[of e n post s u] by simp
  next
    case True
    show ?thesis
    proof (cases "thrown_by_attempt u e n post")
      case None
      then show ?thesis
        using auth True attempt_reported[OF success_outcome(1)[OF True None]] by simp
    next
      case (Some t)
      then show ?thesis
        using auth True attempt_reported[OF failure_outcome(1)[OF True Some]] by simp
    qed
  qed
qed

lemma publish_mirror:
  "mirror (publishPost u e n post s) =
     (if \<not> isAuthenticated (auth e) \<or> \<not> truthy (handle (auth e))
      then map (\<lambda>p. if post_id p = post_id post
                     then post\<lparr>status := Failed, error := Some ''Not authenticated with Bluesky''\<rparr>
                     else p) (mirror s)
      else if \<not> attempt_starts e n post s then mirror s
      else (case thrown_by_attempt u e n post of
              None \<Rightarrow>
                map (\<lambda>p. if post_id p = post_id post
                          then post\<lparr>status := Published, media := None\<rparr> else p) (mirror s)
            | Some t \<Rightarrow>
                map (\<lambda>p. if post_id p = post_id post
                          then post\<lparr>status := Failed, error := Some (error_message t)\<rparr> else p)
                  (mirror s)))"
proof (cases "\<not> isAuthenticated (auth e) \<or> \<not> truthy (handle (auth e))")
  case True
  then show ?thesis unfolding publishPost_def
    by (simp add: Let_def save_state onPostUpdate_def)
next
  case auth: False
  show ?thesis
  proof (cases "attempt_starts e n post s")
    case False
    then show ?thesis using auth not_started[of e n post s u] by simp
  next
    case True
    show ?thesis
    proof (cases "thrown_by_attempt u e n post")
      case None
      then show ?thesis using auth True success_outcome(2)[OF True None] by simp
    next
      case (Some t)
      then show ?thesis using auth True failure_outcome(2)[OF True Some] by simp
    qed
  qed
qed



subsection \<open>The AuthContext never holds a handle without being authenticated\<close>

lemma auth_step_invariant:
  "(truthy (handle a) \<longrightarrow> isAuthenticated a) \<Longrightarrow>
   truthy (handle (auth_step ac a)) \<longrightarrow> isAuthenticated (auth_step ac a)"
  by (cases ac) (simp_all add: auth_step_def signed_out_def truthy_def)

lemma auth_after_invariant:
  assumes "truthy (handle (auth_after acs))"
  shows "isAuthenticated (auth_after acs)"
proof -
  have "truthy (handle (auth_after acs)) \<longrightarrow> isAuthenticated (auth_after acs)"
  proof (induction acs rule: rev_induct)
    case Nil
    show ?case by (simp add: auth_after_def signed_out_def truthy_def)
  next
    case (snoc ac acs)
    have "auth_after (acs @ [ac]) = auth_step ac (auth_after acs)"
      by (simp add: auth_after_def)
    with auth_step_invariant[OF snoc.IH] show ?case by simp
  qed
  then show ?thesis using assms by simp
qed

subsection \<open>What an attempt writes to the table\<close>

lemma save_store:
  assumes "user_id e = Some uid" and "truthy uid" and "truthy (handle (auth e))"
    and "store_write_ok n"
  shows "store (savePostToSupabase e n p s) =
           (case table_update (catalogue s) (store_clock n) (post_id p) uid (handle (auth e))
                   (save_payload (save_clock n) p) (store s) of
              Inl err \<Rightarrow> store s
            | Inr rows \<Rightarrow> rows)"
  using assms unfolding savePostToSupabase_def save_answered_def
  by (simp add: Let_def split: sum.splits)

lemma save_rows_ok:
  assumes "list_all row_ok (store s)"
    and "\<And>uid r. user_id e = Some uid \<Longrightarrow> r \<in> set (store s) \<Longrightarrow>
           row_matches (post_id p) uid (handle (auth e)) r \<Longrightarrow>
           row_ok (apply_payload (save_payload (save_clock n) p) r)"
  shows "list_all row_ok (store (savePostToSupabase e n p s))"
proof (cases "user_id e")
  case None
  then show ?thesis using assms(1) by (simp add: savePostToSupabase_def)
next
  case (Some uid)
  show ?thesis
  proof (cases "truthy uid \<and> truthy (handle (auth e)) \<and> store_write_ok n")
    case False
    then have "store (savePostToSupabase e n p s) = store s"
      using Some unfolding savePostToSupabase_def save_answered_def
      by (auto simp: Let_def)
    then show ?thesis using assms(1) by simp
  next
    case True
    show ?thesis
    proof (cases "table_update (catalogue s) (store_clock n) (post_id p) uid (handle (auth e))
                   (save_payload (save_clock n) p) (store s)")
      case (Inl err)
      then show ?thesis using save_store[OF Some, of n p s] True assms(1) by simp
    next
      case (Inr rows)
      have "list_all row_ok rows"
        using sql_update_ok[OF Inr[unfolded table_update_def] assms(1)] assms(2)[OF Some] by blast
      then show ?thesis using save_store[OF Some, of n p s] True Inr by simp
    qed
  qed
qed

lemma matched_row:
  assumes "select_status pid (Some uid) h rows = Some st" and "r \<in> set rows"
    and "row_matches pid uid h r"
  shows "row_status r = st"
proof -
  from assms(1) obtain r0 where f: "filter (row_matches pid uid h) rows = [r0]"
    and st: "row_status r0 = st"
    unfolding select_status_def by (auto split: list.splits)
  have "r \<in> set (filter (row_matches pid uid h) rows)" using assms(2,3) by simp
  then show ?thesis using f st by simp
qed

lemma guard_store_ok:
  assumes "list_all row_ok (store s)"
  shows "list_all row_ok (store (savePostToSupabase e n (post\<lparr>status := Failed, error := Some m\<rparr>) s))"
  by (rule save_rows_ok[OF assms]) (simp add: row_ok_def apply_payload_def save_payload_def)

lemma updated_never_starts: "catalogue s = updated_schema \<Longrightarrow> \<not> attempt_starts e n post s"
  by (simp add: attempt_starts_def updated_columns)

lemma success_store:
  assumes "attempt_starts e n post s" and "thrown_by_attempt u e n post = None"
    and "error post = None" and "user_id e = Some uid" and "truthy uid" and "store_write_ok n"
    and "catalogue s = migrated_schema" and "list_all row_ok (store s)"
  shows "store (publishPost u e n post s) =
           map (\<lambda>r. if row_matches (post_id post) uid (handle (auth e)) r
                     then r\<lparr>row_status := Published, row_error := None, row_media := None,
                            row_updated_at := store_clock n\<rparr>
                     else r) (store s)"
proof -
  let ?up = "post\<lparr>status := Published, media := None\<rparr>"
  let ?pl = "save_payload (save_clock n) ?up"
  obtain s3 where s3: "store s3 = store s" "catalogue s3 = catalogue s"
    and pp: "publishPost u e n post s = publish_succeeded e n post s3"
    using started_cases[OF assms(1), of u] assms(2) by auto
  have h: "truthy (handle (auth e))" using assms(1) by (simp add: attempt_starts_def)
  have "store (publishPost u e n post s) =
          store (savePostToSupabase e n ?up (onPostUpdate ?up s3))"
    unfolding pp publish_succeeded_def Let_def by simp
  also have "\<dots> = (case table_update migrated_schema (store_clock n) (post_id post) uid
                            (handle (auth e)) ?pl (store s) of
                       Inl err \<Rightarrow> store s | Inr rows \<Rightarrow> rows)"
    using save_store[OF assms(4,5) h assms(6), of ?up "onPostUpdate ?up s3"] s3 assms(7)
    by (simp cong: sum.case_cong)
  also have "\<dots> = map (\<lambda>r. if row_matches (post_id post) uid (handle (auth e)) r
                          then fire_triggers migrated_schema ''scheduled_posts'' (store_clock n) r
                                 (apply_payload ?pl r)
                          else r) (store s)"
    unfolding table_update_def sql_update_def by (simp add: migrated_columns)
  also have "\<dots> = map (\<lambda>r. if row_matches (post_id post) uid (handle (auth e)) r
                     then r\<lparr>row_status := Published, row_error := None, row_media := None,
                            row_updated_at := store_clock n\<rparr>
                     else r) (store s)"
  proof (rule map_cong[OF refl])
    fix r assume r: "r \<in> set (store s)"
    show "(if row_matches (post_id post) uid (handle (auth e)) r
           then fire_triggers migrated_schema ''scheduled_posts'' (store_clock n) r (apply_payload ?pl r)
           else r) =
          (if row_matches (post_id post) uid (handle (auth e)) r
           then r\<lparr>row_status := Published, row_error := None, row_media := None,
                  row_updated_at := store_clock n\<rparr>
           else r)"
    proof (cases "row_matches (post_id post) uid (handle (auth e)) r")
      case False
      then show ?thesis by simp
    next
      case True
      have st: "row_status r = Scheduled"
        using matched_row[of "post_id post" uid "handle (auth e)" "store s" Scheduled r]
          assms(1,4) r True unfolding attempt_starts_def by simp
      have "row_ok r" using r assms(8) by (simp add: list_all_iff)
      with st have er: "row_error r = None" by (simp add: row_ok_def)
      have "fire_triggers migrated_schema ''scheduled_posts'' (store_clock n) r (apply_payload ?pl r) =
              (apply_payload ?pl r)\<lparr>row_media := None, row_updated_at := store_clock n\<rparr>"
        by (rule migrated_fire) (simp_all add: st apply_payload_def save_payload_def)
      also have "\<dots> = r\<lparr>row_status := Published, row_error := None, row_media := None,
                          row_updated_at := store_clock n\<rparr>"
        using er assms(3) by (simp add: apply_payload_def save_payload_def)
      finally show ?thesis using True by simp
    qed
  qed
  finally show ?thesis .
qed

subsection \<open>An error text goes with the status failed only\<close>

text \<open>
  Every way in which the application builds or changes a post or a row keeps \<open>consistent\<close>:
  an attempt of the scheduler, the three handlers of the Dashboard, the edit form and a
  refresh of the list.
\<close>

lemma publishPost_rows_ok:
  assumes "list_all row_ok (store s)" and "status post = Scheduled" and "well_formed post"
  shows "list_all row_ok (store (publishPost u e n post s))"
proof (cases "\<not> isAuthenticated (auth e) \<or> \<not> truthy (handle (auth e))")
  case True
  then show ?thesis unfolding publishPost_def using assms(1)
    by (simp add: Let_def guard_store_ok)
next
  case auth: False
  show ?thesis
  proof (cases "attempt_starts e n post s")
    case False
    then show ?thesis using auth not_started[of e n post s u] assms(1) by simp
  next
    case True
    obtain s3 where s3: "store s3 = store s"
      and pp: "publishPost u e n post s =
             (case thrown_by_attempt u e n post of
                None \<Rightarrow> publish_succeeded e n post s3
              | Some t \<Rightarrow> publish_failed e n post t s3)"
      using started_cases[OF True, of u] by blast
    have e0: "error post = None" using assms(2,3) by (simp add: well_formed_def)
    show ?thesis
    proof (cases "thrown_by_attempt u e n post")
      case (Some t)
      have "list_all row_ok (store (savePostToSupabase e n
              (post\<lparr>status := Failed, error := Some (error_message t)\<rparr>)
              (onPostUpdate (post\<lparr>status := Failed, error := Some (error_message t)\<rparr>)
                 (emit (ConsoleError ''Failed to publish post:'') s3))))"
        by (rule guard_store_ok) (simp add: s3 assms(1))
      then show ?thesis unfolding pp Some by (simp add: publish_failed_def Let_def)
    next
      case None
      let ?up = "post\<lparr>status := Published, media := None\<rparr>"
      have "list_all row_ok (store (savePostToSupabase e n ?up (onPostUpdate ?up s3)))"
      proof (rule save_rows_ok)
        show "list_all row_ok (store (onPostUpdate ?up s3))" by (simp add: s3 assms(1))
      next
        fix uid r
        assume uid: "user_id e = Some uid" and r: "r \<in> set (store (onPostUpdate ?up s3))"
          and m: "row_matches (post_id ?up) uid (handle (auth e)) r"
        have "row_status r = Scheduled"
          using matched_row[of "post_id post" uid "handle (auth e)" "store s" Scheduled r]
            True uid r m s3 unfolding attempt_starts_def by simp
        moreover have "row_ok r" using r assms(1) s3 by (simp add: list_all_iff)
        ultimately have "row_error r = None" by (simp add: row_ok_def)
        then show "row_ok (apply_payload (save_payload (save_clock n) ?up) r)"
          using e0 by (simp add: row_ok_def apply_payload_def save_payload_def)
      qed
      then show ?thesis unfolding pp None by (simp add: publish_succeeded_def Let_def)
    qed
  qed
qed

lemma publishPost_list_ok:
  assumes "list_all well_formed (mirror s)" and "status post = Scheduled" and "well_formed post"
  shows "list_all well_formed (mirror (publishPost u e n post s))"
proof -
  have e0: "error post = None" using assms(2,3) by (simp add: well_formed_def)
  show ?thesis
    unfolding publish_mirror using assms(1) e0
    by (auto simp: list_all_iff well_formed_def split: option.splits)
qed

lemma publishPost_consistent:
  assumes "consistent (mirror s) (store s)" and "status post = Scheduled" and "well_formed post"
  shows "consistent (mirror (publishPost u e n post s)) (store (publishPost u e n post s))"
  using assms publishPost_rows_ok publishPost_list_ok unfolding consistent_def by blast

lemma newPost_ok: "well_formed (newPost uuid h post)"
  by (simp add: well_formed_def newPost_def)

lemma transform_row_ok: "row_ok r \<Longrightarrow> well_formed (transform_row toISOString r)"
  by (simp add: well_formed_def row_ok_def transform_row_def)

lemma edited_ok:
  "well_formed post \<Longrightarrow> OnSave p \<in> set (edit_handleSubmit parseDate toISOString now post f) \<Longrightarrow>
   well_formed p"
  unfolding edit_handleSubmit_def
  by (auto simp: well_formed_def split: if_splits option.splits)

lemma toast_list [simp]:
  "scheduledPosts (toast m d) = scheduledPosts d"
  "scheduledPosts (caught logged m d) = scheduledPosts d"
  by (simp_all add: toast_def caught_def)

lemma handleSchedulePost_consistent:
  assumes "consistent (scheduledPosts d) rows"
    and "handleSchedulePost parseDate e sch uuid now ok post (d, rows) = (d', rows')"
  shows "consistent (scheduledPosts d') rows'"
proof (cases "scheduledPosts d' = scheduledPosts d \<and> rows' = rows")
  case True
  then show ?thesis using assms(1) by simp
next
  case False
  then obtain cols r where l: "scheduledPosts d' = newPost uuid (handle (auth e)) post # scheduledPosts d"
    and r: "row_error r = None" and i: "sql_insert sch cols r rows = Inr rows'"
    using assms(2) unfolding handleSchedulePost_def
    by (fastforce simp: Let_def split: option.splits if_splits sum.splits)
  have "list_all row_ok rows'"
    using sql_insert_ok[OF i] assms(1) r by (simp add: consistent_def row_ok_def)
  then show ?thesis using assms(1) l newPost_ok by (simp add: consistent_def)
qed

lemma handleEditPost_consistent:
  assumes "consistent (scheduledPosts d) rows" and "well_formed post"
    and "handleEditPost parseDate e sch clock now ok post (d, rows) = (d', rows')"
  shows "consistent (scheduledPosts d') rows'"
proof -
  have "(scheduledPosts d' = scheduledPosts d \<and> rows' = rows) \<or>
        (\<exists>uid t. scheduledPosts d' =
              map (\<lambda>p. if post_id p = post_id post then post else p) (scheduledPosts d) \<and>
            sql_update sch now
              [''text'', ''scheduled_for'', ''updated_at'', ''id'', ''user_id'', ''bluesky_handle'']
              (row_matches (post_id post) uid (handle (auth e)))
              (\<lambda>r. r\<lparr>row_text := post_text post, row_scheduled_for := t, row_updated_at := clock\<rparr>)
              rows = Inr rows')"
    using assms(3) unfolding handleEditPost_def
    by (auto simp: Let_def split: option.splits if_splits sum.splits)
  then show ?thesis
  proof (elim disjE exE conjE)
    assume "scheduledPosts d' = scheduledPosts d" "rows' = rows"
    then show ?thesis using assms(1) by simp
  next
    fix uid t
    assume l: "scheduledPosts d' =
              map (\<lambda>p. if post_id p = post_id post then post else p) (scheduledPosts d)"
      and u: "sql_update sch now
              [''text'', ''scheduled_for'', ''updated_at'', ''id'', ''user_id'', ''bluesky_handle'']
              (row_matches (post_id post) uid (handle (auth e)))
              (\<lambda>r. r\<lparr>row_text := post_text post, row_scheduled_for := t, row_updated_at := clock\<rparr>)
              rows = Inr rows'"
    have "list_all row_ok rows'"
      by (rule sql_update_ok[OF u]) (use assms(1) in \<open>auto simp: consistent_def row_ok_def list_all_iff\<close>)
    moreover have "list_all well_formed (scheduledPosts d')"
      unfolding l using assms(1,2) by (auto simp: consistent_def list_all_iff)
    ultimately show ?thesis by (simp add: consistent_def)
  qed
qed

lemma handleDeletePost_consistent:
  assumes "consistent (scheduledPosts d) rows"
    and "handleDeletePost e sch ok pid (d, rows) = (d', rows')"
  shows "consistent (scheduledPosts d') rows'"
proof -
  have "(scheduledPosts d' = scheduledPosts d \<and> rows' = rows) \<or>
        (\<exists>uid. scheduledPosts d' = filter (\<lambda>p. post_id p \<noteq> pid) (scheduledPosts d) \<and>
            sql_delete sch [''id'', ''user_id'', ''bluesky_handle'']
              (row_matches pid uid (handle (auth e))) rows = Inr rows')"
    using assms(2) unfolding handleDeletePost_def
    by (auto simp: Let_def split: option.splits if_splits sum.splits)
  then show ?thesis
    using assms(1) sql_delete_ok unfolding consistent_def by (auto simp: list_all_iff)
qed

lemma loadScheduledPosts_consistent:
  assumes "consistent (scheduledPosts d) rows" and "set fetched \<subseteq> set rows"
  shows "consistent (scheduledPosts (loadScheduledPosts toISOString e force now (FetchData (Some fetched)) d)) rows"
  using assms unfolding loadScheduledPosts_def consistent_def
  by (auto simp: Let_def list_all_iff transform_row_ok)

section \<open>Lemmas on the list view\<close>

lemma members_add:
  "(\<Union>x\<in>set (add_to_group k p gs). set (snd x)) = insert p (\<Union>x\<in>set gs. set (snd x))"
proof (induction gs)
  case Nil
  show ?case by simp
next
  case (Cons g gs)
  obtain a b where g: "g = (a, b)" by (cases g)
  show ?case
  proof (cases "a = k")
    case True
    then show ?thesis unfolding g by auto
  next
    case False
    then show ?thesis unfolding g using Cons.IH by simp
  qed
qed

lemma members_group:
  "group_posts parseDate formatKey ps gs = Inr gs' \<Longrightarrow>
   (\<Union>x\<in>set gs'. set (snd x)) = set ps \<union> (\<Union>x\<in>set gs. set (snd x))"
proof (induction ps arbitrary: gs)
  case Nil
  then show ?case by simp
next
  case (Cons p ps)
  from Cons.prems obtain t where t: "parseDate (scheduledFor p) = Some t"
    and g: "group_posts parseDate formatKey ps (add_to_group (formatKey t) p gs) = Inr gs'"
    by (auto split: option.splits)
  show ?case using Cons.IH[OF g] by (simp add: members_add)
qed

lemma rendered_groups:
  "card_post ` set (concat (map snd
       (map (\<lambda>(dateKey, ps). (dateKey, map render_card (sort_latest_first f ps)))
          (sort_latest_first g gs)))) = (\<Union>x\<in>set gs. set (snd x))"
proof -
  have "card_post ` render_card ` A = A" for A
    by (auto simp: render_card_def image_iff)
  then show ?thesis
    by (simp add: sort_latest_first_def case_prod_beta image_UN)
qed

text \<open>The view is the empty state or the groups of the posts that are not published.\<close>

lemma view_cases:
  assumes "ScheduledPosts parseDate formatKey posts = Inr v"
  shows "(filter (\<lambda>post. status post \<noteq> Published) posts = [] \<and> v = EmptyState) \<or>
         (\<exists>gs. group_posts parseDate formatKey (filter (\<lambda>post. status post \<noteq> Published) posts) [] = Inr gs \<and>
               v = Groups (map (\<lambda>(dateKey, ps). (dateKey, map render_card
                            (sort_latest_first (\<lambda>p. time_of parseDate (scheduledFor p)) ps)))
                          (sort_latest_first (\<lambda>(dateKey, ps). time_of parseDate dateKey) gs)))"
  using assms unfolding ScheduledPosts_def
  by (auto simp: Let_def split: sum.splits if_splits)

lemma shown_posts:
  assumes "ScheduledPosts parseDate formatKey posts = Inr v"
  shows "set (map card_post (shown_cards v)) = {p \<in> set posts. status p \<noteq> Published}"
  using view_cases[OF assms]
proof (elim disjE conjE exE)
  assume e: "filter (\<lambda>post. status post \<noteq> Published) posts = []" and v: "v = EmptyState"
  have "{p \<in> set posts. status p \<noteq> Published} = {}"
    using e by (auto simp: filter_empty_conv)
  then show ?thesis using v by (simp add: shown_cards_def)
next
  fix gs
  assume gs: "group_posts parseDate formatKey (filter (\<lambda>post. status post \<noteq> Published) posts) [] = Inr gs"
    and v: "v = Groups (map (\<lambda>(dateKey, ps). (dateKey, map render_card
                            (sort_latest_first (\<lambda>p. time_of parseDate (scheduledFor p)) ps)))
                          (sort_latest_first (\<lambda>(dateKey, ps). time_of parseDate dateKey) gs))"
  have "set (map card_post (shown_cards v)) = (\<Union>x\<in>set gs. set (snd x))"
    unfolding v shown_cards_def using rendered_groups by simp
  also have "\<dots> = set (filter (\<lambda>post. status post \<noteq> Published) posts)"
    using members_group[OF gs] by simp
  finally show ?thesis by auto
qed

lemma shown_card_rendered:
  assumes "ScheduledPosts parseDate formatKey posts = Inr v" and "c \<in> set (shown_cards v)"
  shows "c = render_card (card_post c)"
  using view_cases[OF assms(1)] assms(2)
  by (auto simp: shown_cards_def render_card_def sort_latest_first_def)

section \<open>The claims\<close>

subsection \<open>C1\<close>

text \<open>
  C1 says that within one activation of the scheduler \<open>agent.post\<close> is called at most
  once for a post, also when several timer callbacks see the post as scheduled and due
  before any of their attempts has ended. The code does not do that. In the activation
  \<open>ex_activation\<close> the initial check starts an attempt on the post \<open>C\<close> and waits for the
  status read; the interval fires before the answer, finds \<open>C\<close> scheduled, due and not in
  \<open>processedPosts\<close>, and starts a second attempt. Both reads answer \<open>scheduled\<close>, both
  attempts add \<open>C\<close> to the set and go on: \<open>agent.post\<close> is called twice for \<open>C\<close>, while the
  interval is still set and before anything is reported to the Dashboard.
\<close>

theorem C1_two_callbacks_publish_twice:
  "interval_set (run_actions ex_parseDate ex_uploads ex_race ex_activation) \<and>
   reported (trace (sched (run_actions ex_parseDate ex_uploads ex_race ex_activation))) = [] \<and>
   create_calls ''C'' (trace (sched (run_actions ex_parseDate ex_uploads ex_race ex_activation))) = 2"
  by code_simp

subsection \<open>C2\<close>

text \<open>
  C2 says that an attempt adds the identity of its post to the de-duplication set before
  its first network call, the status read included. As stated this is false: the status
  read is the first event of the attempt and the identity is added after its answer.
\<close>

theorem C2_status_read_comes_first:
  "take 2 (attempt_trace ex_uploads ex_env ex_net ex_post (ex_state Scheduled)) =
     [StatusRead ''C'' (Some ''u1'') ''alice'', MarkProcessed ''C''] \<and>
   \<not> marked_before is_network (post_id ex_post)
       (attempt_trace ex_uploads ex_env ex_net ex_post (ex_state Scheduled))"
  by code_simp

text \<open>
  C2 as amended: in every attempt the identity of the post is added to the set before the
  credentials are read and before any call of the Publish Client (login, upload,
  \<open>agent.post\<close>).
\<close>

theorem C2_marked_before_publication:
  "marked_before is_publish_call (post_id post) (attempt_trace u e n post s)"
proof (cases "\<not> isAuthenticated (auth e) \<or> \<not> truthy (handle (auth e))")
  case True
  let ?up = "post\<lparr>status := Failed, error := Some ''Not authenticated with Bluesky''\<rparr>"
  obtain xs where xs: "trace (savePostToSupabase e n ?up (onPostUpdate ?up s)) =
                        trace (onPostUpdate ?up s) @ xs"
    using save_prefix[of "onPostUpdate ?up s" e n ?up] by (auto elim: prefixE)
  have nc: "\<not> list_ex is_publish_call xs" using save_no_call[OF xs] .
  have "attempt_trace u e n post s = OnPostUpdate ?up # xs"
    using True xs unfolding attempt_trace_def publishPost_def
    by (simp add: Let_def onPostUpdate_def emit_def)
  then show ?thesis using nc by (simp add: is_publish_call_def marked_before_no_call)
next
  case auth: False
  show ?thesis
  proof (cases "attempt_starts e n post s")
    case False
    then show ?thesis using auth not_started_trace[of e n post s u]
      by (simp add: is_publish_call_def)
  next
    case True
    obtain zs where "trace (publishPost u e n post s) =
        (trace s @ [StatusRead (post_id post) (user_id e) (handle (auth e)),
                    MarkProcessed (post_id post)]) @ zs"
      using started_trace[OF True, of u] by (auto elim: prefixE)
    then have "attempt_trace u e n post s =
        StatusRead (post_id post) (user_id e) (handle (auth e)) # MarkProcessed (post_id post) # zs"
      unfolding attempt_trace_def by simp
    then show ?thesis by (simp add: is_publish_call_def)
  qed
qed

theorem C2_marked_before_publication_witness:
  "marked_before is_publish_call (post_id ex_post)
     (attempt_trace ex_uploads ex_env ex_net ex_post (ex_state Scheduled))"
  by (rule C2_marked_before_publication)

subsection \<open>C3\<close>

text \<open>
  C3: when an attempt succeeds, the record that is reported to the Dashboard and persisted
  to the store has status published, no media and no error, and all the other fields of
  the post. The post is one that the loop of \<open>checkScheduledPosts\<close> attempts: its status
  is scheduled (line 155), and it is well formed, so it carries no error text; the rows of
  the store are well formed too (\<open>publishPost_consistent\<close> and the lemmas after it: the
  application keeps both). The record reported is the post with status published and
  media cleared, and the list of the Dashboard holds it in place of the post. The request
  to the store sets the status and names neither media nor error. The database is one
  that the scripts of the repository build; an attempt starts on the table of the
  migration script only, and there the trigger \<open>clear_media_after_publish\<close> answers the
  write: afterwards the row of the post has status published, media NULL and error NULL,
  \<open>updated_at\<close> is the time of the write, and nothing else has changed in the table.
  The attempt is the only one on its post, from its call to its return, as in C4 and C5:
  two attempts at once on one post are the defect of C1.
\<close>

theorem C3_success_record:
  assumes "attempt_starts e n post s" and "thrown_by_attempt u e n post = None"
    and "status post = Scheduled" and "well_formed post"
  shows "reported (trace (publishPost u e n post s)) =
           reported (trace s) @ [post\<lparr>status := Published, media := None, error := None\<rparr>] \<and>
         mirror (publishPost u e n post s) =
           map (\<lambda>p. if post_id p = post_id post
                     then post\<lparr>status := Published, media := None, error := None\<rparr> else p)
             (mirror s) \<and>
         (\<forall>uid. has_user e \<and> user_id e = Some uid \<longrightarrow>
            written (trace (publishPost u e n post s)) =
              written (trace s) @
                [(post_id post, uid, handle (auth e),
                  \<lparr>pl_status = Published, pl_error = None, pl_media = None,
                   pl_updated_at = save_clock n\<rparr>)]) \<and>
         (\<forall>uid. has_user e \<and> user_id e = Some uid \<and> store_write_ok n \<and>
                list_all row_ok (store s) \<and>
                (catalogue s = migrated_schema \<or> catalogue s = updated_schema) \<longrightarrow>
            store (publishPost u e n post s) =
              map (\<lambda>r. if row_matches (post_id post) uid (handle (auth e)) r
                        then r\<lparr>row_status := Published, row_error := None, row_media := None,
                               row_updated_at := store_clock n\<rparr>
                        else r) (store s))"
proof -
  have e0: "error post = None" using assms(3,4) by (simp add: well_formed_def)
  then have up: "post\<lparr>status := Published, media := None, error := None\<rparr> =
                 post\<lparr>status := Published, media := None\<rparr>"
    by (cases post) simp
  have w: "written (trace (publishPost u e n post s)) =
              written (trace s) @
                [(post_id post, uid, handle (auth e),
                  \<lparr>pl_status = Published, pl_error = None, pl_media = None,
                   pl_updated_at = save_clock n\<rparr>)]"
    if "has_user e" "user_id e = Some uid" for uid
    using success_outcome(3)[OF assms(1,2) that] e0 by (simp add: save_payload_def)
  have st: "store (publishPost u e n post s) =
              map (\<lambda>r. if row_matches (post_id post) uid (handle (auth e)) r
                        then r\<lparr>row_status := Published, row_error := None, row_media := None,
                               row_updated_at := store_clock n\<rparr>
                        else r) (store s)"
    if "has_user e" "user_id e = Some uid" "store_write_ok n" "list_all row_ok (store s)"
      "catalogue s = migrated_schema \<or> catalogue s = updated_schema" for uid
  proof -
    have c: "catalogue s = migrated_schema" using that(5) updated_never_starts assms(1) by blast
    have t: "truthy uid" using that(1,2) by (simp add: has_user_def)
    show ?thesis by (rule success_store[OF assms(1,2) e0 that(2) t that(3) c that(4)])
  qed
  show ?thesis
    unfolding up using success_outcome(1,2)[OF assms(1,2)] w st by blast
qed

theorem C3_success_record_witness:
  "attempt_starts ex_env ex_net ex_post (ex_state Scheduled) \<and>
   thrown_by_attempt ex_uploads ex_env ex_net ex_post = None \<and>
   status ex_post = Scheduled \<and> well_formed ex_post \<and>
   reported (trace (publishPost ex_uploads ex_env ex_net ex_post (ex_state Scheduled))) =
     [ex_post\<lparr>status := Published, media := None, error := None\<rparr>] \<and>
   written (trace (publishPost ex_uploads ex_env ex_net ex_post (ex_state Scheduled))) =
     [(''C'', ''u1'', ''alice'',
       \<lparr>pl_status = Published, pl_error = None, pl_media = None, pl_updated_at = 101\<rparr>)] \<and>
   store (ex_state Scheduled) = [ex_row Scheduled] \<and>
   row_media (ex_row Scheduled) = Some [ex_media] \<and>
   store (publishPost ex_uploads ex_env ex_net ex_post (ex_state Scheduled)) =
     [(ex_row Scheduled)\<lparr>row_status := Published, row_error := None, row_media := None,
                          row_updated_at := 102\<rparr>]"
proof -
  have h1: "attempt_starts ex_env ex_net ex_post (ex_state Scheduled)" by code_simp
  have h2: "thrown_by_attempt ex_uploads ex_env ex_net ex_post = None" by code_simp
  have h3: "status ex_post = Scheduled" by code_simp
  have h4: "well_formed ex_post" by code_simp
  have h5: "has_user ex_env \<and> user_id ex_env = Some ''u1'' \<and> store_write_ok ex_net \<and>
            list_all row_ok (store (ex_state Scheduled)) \<and>
            catalogue (ex_state Scheduled) = migrated_schema"
    by code_simp
  have h6: "row_matches (post_id ex_post) ''u1'' (handle (auth ex_env)) (ex_row Scheduled)"
    by code_simp
  show ?thesis
    using C3_success_record[OF h1 h2 h3 h4] h1 h2 h3 h4 h5 h6
    by (simp add: ex_state_def ex_env_def ex_net_def ex_post_def ex_row_def)
qed

subsection \<open>C4\<close>

text \<open>
  C4: a due post whose status in the store, read again at the attempt, is not scheduled
  any more is skipped in silence: nothing is published, reported or written, and its
  status is not set to failed; only an attempt that went on to the publication and failed
  there sets failed. The auth state is one that the AuthContext can hold and the effect
  is set up; the guard of \<open>publishPost\<close> for a missing authentication cannot fire then.
\<close>

theorem C4_not_scheduled_is_skipped:
  assumes "auth e = auth_after acs" and "effect_runs e"
  shows "(\<not> (store_read_ok n \<and>
              select_status (post_id post) (user_id e) (handle (auth e)) (store s) = Some Scheduled) \<longrightarrow>
            reported (attempt_trace u e n post s) = [] \<and>
            written (attempt_trace u e n post s) = [] \<and>
            create_calls (post_id post) (attempt_trace u e n post s) = 0 \<and>
            mirror (publishPost u e n post s) = mirror s \<and>
            store (publishPost u e n post s) = store s \<and>
            processedPosts (publishPost u e n post s) = processedPosts s) \<and>
         ((\<exists>p \<in> set (reported (attempt_trace u e n post s)). status p = Failed) \<longrightarrow>
            attempt_starts e n post s \<and> thrown_by_attempt u e n post \<noteq> None)"
proof -
  have h: "truthy (handle (auth e))" using assms(2) by (simp add: effect_runs_def)
  have a: "isAuthenticated (auth e)" using auth_after_invariant[of acs] h assms(1) by simp
  have skip: "reported (attempt_trace u e n post s) = [] \<and>
            written (attempt_trace u e n post s) = [] \<and>
            create_calls (post_id post) (attempt_trace u e n post s) = 0 \<and>
            mirror (publishPost u e n post s) = mirror s \<and>
            store (publishPost u e n post s) = store s \<and>
            processedPosts (publishPost u e n post s) = processedPosts s"
    if "\<not> attempt_starts e n post s"
    using not_started[OF a h that, of u] not_started_trace[OF a h that, of u]
    by (simp add: create_calls_def)
  have genuine: "attempt_starts e n post s \<and> thrown_by_attempt u e n post \<noteq> None"
    if f: "\<exists>p \<in> set (reported (attempt_trace u e n post s)). status p = Failed"
  proof -
    have st: "attempt_starts e n post s"
      using f a h publish_reported[of u e n post s] by (auto split: if_splits)
    moreover have "thrown_by_attempt u e n post \<noteq> None"
      using f a h st publish_reported[of u e n post s]
      by (cases "thrown_by_attempt u e n post") auto
    ultimately show ?thesis by simp
  qed
  show ?thesis using skip genuine unfolding attempt_starts_def by blast
qed

theorem C4_not_scheduled_is_skipped_witness:
  "auth ex_env = auth_after [LoginSucceeded ''@alice'' ''pw''] \<and> effect_runs ex_env \<and>
   select_status (post_id ex_post) (user_id ex_env) (handle (auth ex_env)) (store (ex_state Published)) =
     Some Published \<and>
   reported (attempt_trace ex_uploads ex_env ex_net ex_post (ex_state Published)) = [] \<and>
   written (attempt_trace ex_uploads ex_env ex_net ex_post (ex_state Published)) = [] \<and>
   create_calls (post_id ex_post) (attempt_trace ex_uploads ex_env ex_net ex_post (ex_state Published)) = 0 \<and>
   mirror (publishPost ex_uploads ex_env ex_net ex_post (ex_state Published)) = mirror (ex_state Published) \<and>
   store (publishPost ex_uploads ex_env ex_net ex_post (ex_state Published)) = store (ex_state Published)"
proof -
  have h1: "auth ex_env = auth_after [LoginSucceeded ''@alice'' ''pw'']" by code_simp
  have h2: "effect_runs ex_env" by code_simp
  have h3: "select_status (post_id ex_post) (user_id ex_env) (handle (auth ex_env))
              (store (ex_state Published)) = Some Published"
    by code_simp
  show ?thesis
    using C4_not_scheduled_is_skipped[OF h1 h2, of ex_net ex_post "ex_state Published" ex_uploads]
      h1 h2 h3
    by simp
qed

subsection \<open>C5\<close>




subsection \<open>C6\<close>

text \<open>
  C6 says that in the schema that the SQL scripts of the repository build, a trigger sets
  \<open>media\<close> to NULL when an update turns the status of a row from scheduled to published,
  and a daily job deletes the rows published more than 90 days ago. The migration script
  builds that. \<open>update_tables.sql\<close> undoes the first half: it drops the table of the posts,
  and the triggers of the table with it, and creates it again with the trigger for
  \<open>updated_at\<close> only, the one of the two triggers that it repeats. After both scripts an
  update from scheduled to published keeps the media of the row, where the schema of the
  migration script alone clears it. The same holds after \<open>update_tables.sql\<close> alone; and
  run after it, the migration script stops at a trigger whose name is taken. The daily
  job is not touched: it still deletes the rows published more than 90 days ago.
\<close>

theorem C6_update_tables_drops_trigger:
  "run_script (migration_script @ update_tables_script) empty_schema = Inr updated_schema \<and>
   triggers_of migrated_schema ''scheduled_posts'' = [TrgClearMedia, TrgUpdateUpdatedAt] \<and>
   triggers_of updated_schema ''scheduled_posts'' = [TrgUpdateUpdatedAt] \<and>
   row_status (ex_row Scheduled) = Scheduled \<and>
   sql_update migrated_schema 200 [''status'', ''id''] (\<lambda>r. row_id r = ''C'')
       (\<lambda>r. r\<lparr>row_status := Published\<rparr>) [ex_row Scheduled] =
     Inr [(ex_row Published)\<lparr>row_media := None, row_updated_at := 200\<rparr>] \<and>
   sql_update updated_schema 200 [''status'', ''id''] (\<lambda>r. row_id r = ''C'')
       (\<lambda>r. r\<lparr>row_status := Published\<rparr>) [ex_row Scheduled] =
     Inr [(ex_row Published)\<lparr>row_updated_at := 200\<rparr>] \<and>
   row_media ((ex_row Published)\<lparr>row_updated_at := 200\<rparr>) = Some [ex_media] \<and>
   triggers_of (schema_of (run_script update_tables_script empty_schema)) ''scheduled_posts'' =
     [TrgUpdateUpdatedAt] \<and>
   run_script (update_tables_script @ migration_script) empty_schema =
     Inl (DuplicateObject ''update_bluesky_credentials_updated_at'') \<and>
   run_job updated_schema ''delete-old-posts'' 7776000011
       [ex_row Published, ex_row Failed, (ex_row Published)\<lparr>row_updated_at := 11\<rparr>] =
     Inr [ex_row Failed, (ex_row Published)\<lparr>row_updated_at := 11\<rparr>]"
  by code_simp

subsection \<open>C7\<close>

text \<open>
  C7: the list view offers the edit button only on a post whose status is scheduled; and
  a submission of the edit form or of the compose form whose target time is not after
  the current time changes and creates no post record (\<open>handleEditPost\<close> and
  \<open>handleSchedulePost\<close> are not called): the edit form throws and logs the error
  \<open>Scheduled time must be in the future\<close>, the compose form in scheduling mode shows it.
\<close>

theorem C7_edit_gating_and_future_time:
  "(ScheduledPosts parseDate formatKey posts = Inr v \<longrightarrow>
      (\<forall>c \<in> set (shown_cards v). edit_button c \<longleftrightarrow> status (card_post c) = Scheduled)) \<and>
   (\<forall>t. parseDate (ef_scheduledDate f @ ''T'' @ ef_scheduledTime f) = Some t \<and> t \<le> now \<longrightarrow>
      \<not> list_ex changes_record (edit_handleSubmit parseDate toISOString now post f) \<and>
      (\<not> ef_isSubmitting f \<longrightarrow>
         edit_handleSubmit parseDate toISOString now post f =
           [FormConsoleError (ErrorObj ''Error'' ''Scheduled time must be in the future'')])) \<and>
   (\<forall>t. parseDate (pf_scheduledDate g @ ''T'' @ pf_scheduledTime g) = Some t \<and> t \<le> now \<longrightarrow>
      \<not> list_ex changes_record
          (post_handleSubmit parseDate toISOString trim now has_agent now_resp g) \<and>
      (has_agent \<and> truthy (trim (pf_text g)) \<and> pf_isScheduling g \<and>
       truthy (pf_scheduledDate g) \<and> truthy (pf_scheduledTime g) \<longrightarrow>
         post_handleSubmit parseDate toISOString trim now has_agent now_resp g =
           [FormToastError ''Scheduled time must be in the future'']))"
proof -
  have a: "edit_button c \<longleftrightarrow> status (card_post c) = Scheduled"
    if "ScheduledPosts parseDate formatKey posts = Inr v" "c \<in> set (shown_cards v)" for c
  proof -
    have "c = render_card (card_post c)" using shown_card_rendered[OF that] .
    then have "edit_button c = edit_button (render_card (card_post c))" by simp
    then show ?thesis by (simp add: render_card_def)
  qed
  have b: "\<not> list_ex changes_record (edit_handleSubmit parseDate toISOString now post f) \<and>
      (\<not> ef_isSubmitting f \<longrightarrow>
         edit_handleSubmit parseDate toISOString now post f =
           [FormConsoleError (ErrorObj ''Error'' ''Scheduled time must be in the future'')])"
    if "parseDate (ef_scheduledDate f @ ''T'' @ ef_scheduledTime f) = Some t" "t \<le> now" for t
    using that unfolding edit_handleSubmit_def by (simp add: changes_record_def)
  have c: "\<not> list_ex changes_record
          (post_handleSubmit parseDate toISOString trim now has_agent now_resp g) \<and>
      (has_agent \<and> truthy (trim (pf_text g)) \<and> pf_isScheduling g \<and>
       truthy (pf_scheduledDate g) \<and> truthy (pf_scheduledTime g) \<longrightarrow>
         post_handleSubmit parseDate toISOString trim now has_agent now_resp g =
           [FormToastError ''Scheduled time must be in the future''])"
    if "parseDate (pf_scheduledDate g @ ''T'' @ pf_scheduledTime g) = Some t" "t \<le> now" for t
    using that unfolding post_handleSubmit_def
    by (simp add: changes_record_def split: option.splits)
  from a b c show ?thesis by blast
qed

theorem C7_edit_gating_and_future_time_witness:
  "ScheduledPosts ex_parseDate ex_formatKey [ex_post, ex_post\<lparr>post_id := ''F'', status := Failed\<rparr>] =
     Inr (Groups [(''day0'', [render_card ex_post,
                              render_card (ex_post\<lparr>post_id := ''F'', status := Failed\<rparr>)])]) \<and>
   edit_button (render_card ex_post) \<and>
   \<not> edit_button (render_card (ex_post\<lparr>post_id := ''F'', status := Failed\<rparr>)) \<and>
   ex_parseForm (ef_scheduledDate ex_edit_form @ ''T'' @ ef_scheduledTime ex_edit_form) = Some 50 \<and>
   edit_handleSubmit ex_parseForm ex_toISOString 50 ex_post ex_edit_form =
     [FormConsoleError (ErrorObj ''Error'' ''Scheduled time must be in the future'')] \<and>
   post_handleSubmit ex_parseForm ex_toISOString (\<lambda>txt. txt) 50 True None ex_post_form =
     [FormToastError ''Scheduled time must be in the future'']"
proof -
  have v: "ScheduledPosts ex_parseDate ex_formatKey
             [ex_post, ex_post\<lparr>post_id := ''F'', status := Failed\<rparr>] =
           Inr (Groups [(''day0'', [render_card ex_post,
                                    render_card (ex_post\<lparr>post_id := ''F'', status := Failed\<rparr>)])])"
    by code_simp
  have p: "ex_parseForm (ef_scheduledDate ex_edit_form @ ''T'' @ ef_scheduledTime ex_edit_form) = Some 50"
    by code_simp
  have q: "ex_parseForm (pf_scheduledDate ex_post_form @ ''T'' @ pf_scheduledTime ex_post_form) = Some 50"
    by code_simp
  have r: "truthy (pf_text ex_post_form) \<and> pf_isScheduling ex_post_form \<and>
           truthy (pf_scheduledDate ex_post_form) \<and> truthy (pf_scheduledTime ex_post_form) \<and>
           \<not> ef_isSubmitting ex_edit_form"
    by code_simp
  show ?thesis
    using C7_edit_gating_and_future_time[where parseDate = ex_parseDate and formatKey = ex_formatKey
        and posts = "[ex_post, ex_post\<lparr>post_id := ''F'', status := Failed\<rparr>]"
        and v = "Groups [(''day0'', [render_card ex_post,
                                     render_card (ex_post\<lparr>post_id := ''F'', status := Failed\<rparr>)])]"]
      C7_edit_gating_and_future_time[where parseDate = ex_parseForm and f = ex_edit_form
        and g = ex_post_form and now = 50 and toISOString = ex_toISOString and post = ex_post
        and trim = "\<lambda>txt. txt" and has_agent = True and now_resp = None]
      v p q r
    by (simp add: shown_cards_def render_card_def ex_post_def)
qed

subsection \<open>C8\<close>

text \<open>
  C8: when the read of a refresh fails, the failure sets the error state of the Dashboard,
  which shows the error panel with its button Try Again, and the list of posts in memory
  is left exactly as it was. A failed read is an answer of the store with \<open>fetchError\<close>
  set. The list and the time of the last fetch are unchanged, the spinner is taken away,
  the error state holds the text \<open>Failed to load scheduled posts\<close>, the panel is the error
  panel, and a retry reads again whatever the age of the cache.
\<close>

theorem C8_failed_refresh:
  assumes "load_reads e force now d"
  shows "scheduledPosts (loadScheduledPosts toISOString e force now (FetchError err) d) = scheduledPosts d \<and>
         loading (loadScheduledPosts toISOString e force now (FetchError err) d) = False \<and>
         lastFetch (loadScheduledPosts toISOString e force now (FetchError err) d) = lastFetch d \<and>
         ui_error (loadScheduledPosts toISOString e force now (FetchError err) d) =
           Some ''Failed to load scheduled posts'' \<and>
         dashboard_panel (loadScheduledPosts toISOString e force now (FetchError err) d) =
           ErrorPanel ''Failed to load scheduled posts'' \<and>
         load_reads e True now' (loadScheduledPosts toISOString e force now (FetchError err) d)"
  using assms
  unfolding loadScheduledPosts_def load_reads_def dashboard_panel_def load_catch_def
    thrown_store_error_def is_abort_def load_error_message_def
  by (auto simp: Let_def truthy_def)

theorem C8_failed_refresh_witness:
  "load_reads ex_env True 1000 ex_dashboard \<and>
   scheduledPosts (loadScheduledPosts ex_toISOString ex_env True 1000 (FetchError ex_store_error)
       ex_dashboard) = [ex_post] \<and>
   ui_error (loadScheduledPosts ex_toISOString ex_env True 1000 (FetchError ex_store_error)
       ex_dashboard) = Some ''Failed to load scheduled posts'' \<and>
   dashboard_panel (loadScheduledPosts ex_toISOString ex_env True 1000 (FetchError ex_store_error)
       ex_dashboard) = ErrorPanel ''Failed to load scheduled posts'' \<and>
   load_reads ex_env True 1001 (loadScheduledPosts ex_toISOString ex_env True 1000
       (FetchError ex_store_error) ex_dashboard)"
proof -
  have h: "load_reads ex_env True 1000 ex_dashboard" by code_simp
  show ?thesis
    using C8_failed_refresh[OF h, of ex_toISOString ex_store_error 1001] h
    by (simp add: ex_dashboard_def)
qed

subsection \<open>C9\<close>



subsection \<open>C10\<close>

text \<open>
  C10: the list view never shows a post whose status is published. The posts of the
  cards it renders are the posts of the list that are not published, and when every
  post of the list is published it renders the empty state.
\<close>

theorem C10_published_never_shown:
  "(ScheduledPosts parseDate formatKey posts = Inr v \<longrightarrow>
      (\<forall>c \<in> set (shown_cards v). status (card_post c) \<noteq> Published) \<and>
      set (map card_post (shown_cards v)) = {p \<in> set posts. status p \<noteq> Published}) \<and>
   ((\<forall>p \<in> set posts. status p = Published) \<longrightarrow>
      ScheduledPosts parseDate formatKey posts = Inr EmptyState)"
proof -
  have a: "\<forall>c \<in> set (shown_cards v). status (card_post c) \<noteq> Published"
    and b: "set (map card_post (shown_cards v)) = {p \<in> set posts. status p \<noteq> Published}"
    if "ScheduledPosts parseDate formatKey posts = Inr v"
    using shown_posts[OF that] by auto
  have c: "ScheduledPosts parseDate formatKey posts = Inr EmptyState"
    if "\<forall>p \<in> set posts. status p = Published"
  proof -
    have "filter (\<lambda>post. status post \<noteq> Published) posts = []"
      using that by (simp add: filter_empty_conv)
    then show ?thesis unfolding ScheduledPosts_def by (simp add: Let_def)
  qed
  from a b c show ?thesis by blast
qed

theorem C10_published_never_shown_witness:
  "ScheduledPosts ex_parseDate ex_formatKey [ex_post, ex_published_post] =
     Inr (Groups [(''day0'', [render_card ex_post])]) \<and>
   status ex_published_post = Published \<and>
   map card_post (shown_cards (Groups [(''day0'', [render_card ex_post])])) = [ex_post] \<and>
   ScheduledPosts ex_parseDate ex_formatKey [ex_published_post, ex_published_post] = Inr EmptyState"
proof -
  have v: "ScheduledPosts ex_parseDate ex_formatKey [ex_post, ex_published_post] =
             Inr (Groups [(''day0'', [render_card ex_post])])"
    by code_simp
  have p: "status ex_published_post = Published" by code_simp
  have s: "map card_post (shown_cards (Groups [(''day0'', [render_card ex_post])])) = [ex_post]"
    by (simp add: shown_cards_def render_card_def)
  show ?thesis
    using C10_published_never_shown[where parseDate = ex_parseDate and formatKey = ex_formatKey
        and posts = "[ex_published_post, ex_published_post]"]
      v p s
    by simp
qed

section \<open>Further properties\<close>

text \<open>
  The guard of \<open>publishPost\<close>: without authentication or without a handle the post is
  reported as failed with the text \<open>Not authenticated with Bluesky\<close>, the status in the
  store is not read, nothing is published and the set is left as it is.
\<close>

theorem guard_marks_failed:
  assumes "\<not> isAuthenticated (auth e) \<or> \<not> truthy (handle (auth e))"
  shows "reported (attempt_trace u e n post s) =
           [post\<lparr>status := Failed, error := Some ''Not authenticated with Bluesky''\<rparr>] \<and>
         \<not> list_ex (\<lambda>ev. case ev of StatusRead pid uid h \<Rightarrow> True | _ \<Rightarrow> False)
              (attempt_trace u e n post s) \<and>
         \<not> list_ex is_publish_call (attempt_trace u e n post s) \<and>
         processedPosts (publishPost u e n post s) = processedPosts s"
proof -
  let ?up = "post\<lparr>status := Failed, error := Some ''Not authenticated with Bluesky''\<rparr>"
  have r: "reported (attempt_trace u e n post s) = [?up]"
    using assms publish_reported[of u e n post s] by simp
  have t: "attempt_trace u e n post s =
             drop (length (trace s)) (trace (savePostToSupabase e n ?up (onPostUpdate ?up s)))"
    using assms unfolding attempt_trace_def publishPost_def by (simp add: Let_def)
  have n: "\<not> list_ex (\<lambda>ev. case ev of StatusRead pid uid h \<Rightarrow> True | _ \<Rightarrow> False)
              (attempt_trace u e n post s) \<and>
           \<not> list_ex is_publish_call (attempt_trace u e n post s)"
    unfolding t savePostToSupabase_def save_answered_def onPostUpdate_def
    by (simp add: Let_def emit_def is_publish_call_def split: option.splits sum.splits)
  have p: "processedPosts (publishPost u e n post s) = processedPosts s"
    using assms unfolding publishPost_def by (simp add: Let_def save_state)
  from r n p show ?thesis by blast
qed

theorem guard_marks_failed_witness:
  "\<not> isAuthenticated (auth ex_env_no_auth) \<and>
   reported (attempt_trace ex_uploads ex_env_no_auth ex_net ex_post (ex_state Published)) =
     [ex_post\<lparr>status := Failed, error := Some ''Not authenticated with Bluesky''\<rparr>] \<and>
   processedPosts (publishPost ex_uploads ex_env_no_auth ex_net ex_post (ex_state Published)) = {}"
proof -
  have h: "\<not> isAuthenticated (auth ex_env_no_auth)" by code_simp
  show ?thesis
    using guard_marks_failed[of ex_env_no_auth ex_uploads ex_net ex_post "ex_state Published"] h
    by (simp add: ex_state_def)
qed

text \<open>
  The schema of the migration script alone does what C6 says: an update that the table
  accepts fires the triggers on every row it writes; on a row whose status goes from
  scheduled to published they set \<open>media\<close> to NULL and \<open>updated_at\<close> to the time of the
  update; and the job \<open>delete-old-posts\<close>, scheduled at minute 0 of hour 0 of every day,
  deletes the rows with status published whose \<open>updated_at\<close> is more than 90 days before
  the run, and no other row.
\<close>

theorem migration_schema:
  "run_script migration_script empty_schema = Inr migrated_schema \<and>
   (missing_columns migrated_schema cols = None \<longrightarrow>
      sql_update migrated_schema now cols cond assign rows =
        Inr (map (\<lambda>r. if cond r then fire_triggers migrated_schema ''scheduled_posts'' now r (assign r)
                       else r) rows)) \<and>
   (row_status old = Scheduled \<and> row_status new = Published \<longrightarrow>
      fire_triggers migrated_schema ''scheduled_posts'' now old new =
        new\<lparr>row_media := None, row_updated_at := now\<rparr>) \<and>
   map_of (sch_jobs migrated_schema) ''delete-old-posts'' =
     Some (\<lparr>c_minute = Some 0, c_hour = Some 0, c_dom = None, c_month = None, c_dow = None\<rparr>,
           ''delete_old_posts'') \<and>
   (cron_fires \<lparr>c_minute = Some 0, c_hour = Some 0, c_dom = None, c_month = None, c_dow = None\<rparr>
        mi h d mo dw \<longleftrightarrow> mi = 0 \<and> h = 0) \<and>
   run_job migrated_schema ''delete-old-posts'' now rows =
     Inr (filter (\<lambda>r. \<not> (row_status r = Published \<and>
                           row_updated_at r < now - 90 * 24 * 60 * 60 * 1000)) rows)"
proof -
  have u: "sql_update migrated_schema now cols cond assign rows =
     Inr (map (\<lambda>r. if cond r then fire_triggers migrated_schema ''scheduled_posts'' now r (assign r)
                    else r) rows)"
    if "missing_columns migrated_schema cols = None"
    unfolding sql_update_def using that by simp
  have f: "fire_triggers migrated_schema ''scheduled_posts'' now old new =
        new\<lparr>row_media := None, row_updated_at := now\<rparr>"
    if "row_status old = Scheduled" "row_status new = Published"
    using migrated_fire[OF that] .
  have c: "cron_fires \<lparr>c_minute = Some 0, c_hour = Some 0, c_dom = None, c_month = None, c_dow = None\<rparr>
        mi h d mo dw \<longleftrightarrow> mi = 0 \<and> h = 0"
    by (auto simp: cron_fires_def)
  have j: "run_job migrated_schema ''delete-old-posts'' now rows =
     Inr (filter (\<lambda>r. \<not> (row_status r = Published \<and>
                           row_updated_at r < now - 90 * 24 * 60 * 60 * 1000)) rows)"
    unfolding run_job_def migrated_job using migrated_function migrated_table
    by (simp add: delete_old_posts_def ninety_days_def)
  from migrated_runs u f migrated_job c j show ?thesis by blast
qed

theorem migration_schema_witness:
  "row_status (ex_row Scheduled) = Scheduled \<and> row_status (ex_row Published) = Published \<and>
   fire_triggers migrated_schema ''scheduled_posts'' 200 (ex_row Scheduled) (ex_row Published) =
     (ex_row Published)\<lparr>row_media := None, row_updated_at := 200\<rparr> \<and>
   run_job migrated_schema ''delete-old-posts'' 7776000011
       [ex_row Published, ex_row Failed, (ex_row Published)\<lparr>row_updated_at := 11\<rparr>] =
     Inr [ex_row Failed, (ex_row Published)\<lparr>row_updated_at := 11\<rparr>]"
  using migration_schema[where old = "ex_row Scheduled" and new = "ex_row Published"
      and now = 200 and rows = "[]"]
    migration_schema[where now = 7776000011
      and rows = "[ex_row Published, ex_row Failed, (ex_row Published)\<lparr>row_updated_at := 11\<rparr>]"]
  by (simp add: ex_row_def)

text \<open>
  The hook reads and writes the posts by the column \<open>bluesky_handle\<close>, which the table of
  \<open>update_tables.sql\<close> does not have: on that table the read of the status fails, so no
  attempt gets as far as a publication, and a write is refused.
\<close>

theorem hook_needs_bluesky_handle:
  "(catalogue s = updated_schema \<longrightarrow> \<not> attempt_starts e n post s) \<and>
   table_update updated_schema now pid uid h pl rows = Inl (UndefinedColumn ''bluesky_handle'')"
proof -
  have "missing_columns updated_schema (payload_columns pl @ [''id'', ''user_id'', ''bluesky_handle'']) =
          Some (UndefinedColumn ''bluesky_handle'')"
    unfolding missing_columns_def updated_posts_table payload_columns_def
    by (simp split: option.splits)
  then show ?thesis
    using updated_never_starts unfolding table_update_def sql_update_def by auto
qed

theorem hook_needs_bluesky_handle_witness:
  "\<not> attempt_starts ex_env ex_net ex_post ((ex_state Scheduled)\<lparr>catalogue := updated_schema\<rparr>) \<and>
   table_update updated_schema 102 ''C'' ''u1'' ''alice''
       \<lparr>pl_status = Published, pl_error = None, pl_media = None, pl_updated_at = 101\<rparr>
       [ex_row Scheduled] = Inl (UndefinedColumn ''bluesky_handle'')"
  using hook_needs_bluesky_handle[of "(ex_state Scheduled)\<lparr>catalogue := updated_schema\<rparr>"
      ex_env ex_net ex_post]
    hook_needs_bluesky_handle[where now = 102 and pid = "''C''" and uid = "''u1''" and h = "''alice''"
      and pl = "\<lparr>pl_status = Published, pl_error = None, pl_media = None, pl_updated_at = 101\<rparr>"
      and rows = "[ex_row Scheduled]"]
  by simp

text \<open>
  The description of \<open>publishPost\<close> between its awaits agrees with \<open>publishPost\<close>: an
  attempt that nothing interrupts ends within six answers, in the same state.
\<close>

theorem run_alone_publishPost_witness:
  "run_alone ex_uploads ex_env ex_net ex_post (ex_state Scheduled) =
     (None, publishPost ex_uploads ex_env ex_net ex_post (ex_state Scheduled))"
  by (rule run_alone_publishPost)

end
